theory Spec2Isabelle
  imports Complex_Main "HOL-Library.Sublist"
begin

section \<open>Strings\<close>

text \<open>
  A JavaScript string is a sequence of UTF-16 code units. A \<^typ>\<open>char\<close> stands for one
  code unit below 256 (the Latin-1 range, which holds every character of the service's
  own messages); strings with other code units are outside this development.
  \<^verbatim>\<open>String.prototype.trim\<close> strips white space and line terminators from both ends; in
  this range they are U+0009 to U+000D, U+0020 and U+00A0.
  \<^verbatim>\<open>String.prototype.toLowerCase\<close> maps A-Z and the Latin-1 capitals U+00C0 to U+00DE
  (U+00D7, the multiplication sign, apart) to the code unit 32 above.
\<close>

definition isWhiteSpace :: "char \<Rightarrow> bool" where
  "isWhiteSpace c = (let n = (of_char c :: nat) in (9 \<le> n \<and> n \<le> 13) \<or> n = 32 \<or> n = 160)"

definition trim :: "string \<Rightarrow> string" where
  "trim s = rev (dropWhile isWhiteSpace (rev (dropWhile isWhiteSpace s)))"

definition toLowerCase_char :: "char \<Rightarrow> char" where
  "toLowerCase_char c =
     (let n = (of_char c :: nat) in
      if (65 \<le> n \<and> n \<le> 90) \<or> (192 \<le> n \<and> n \<le> 222 \<and> n \<noteq> 215)
      then char_of (n + 32) else c)"

definition toLowerCase :: "string \<Rightarrow> string" where
  "toLowerCase s = map toLowerCase_char s"

section \<open>Data model\<close>

text \<open>
  A row of the \<^verbatim>\<open>Category\<close> table. \<^verbatim>\<open>id\<close> is written \<open>id_cat\<close> (\<open>id\<close> is HOL's
  identity function). A column that holds SQL \<^verbatim>\<open>NULL\<close> is \<open>None\<close>.
\<close>

record Category =
  id_cat :: string
  nome :: string
  cor :: string
  descricao :: "string option"
  tenantId :: "string option"
  criadoEm :: int

text \<open>
  \<^verbatim>\<open>CategoryInput\<close>, as the service reads it: \<^verbatim>\<open>data.nome\<close>, \<^verbatim>\<open>data.cor\<close> and the
  optional \<^verbatim>\<open>data.descricao\<close> (\<open>None\<close> when the property is absent).
\<close>

record CategoryInput =
  nome_in :: string
  cor_in :: string
  descricao_in :: "string option"

text \<open>
  A JavaScript number as \<^verbatim>\<open>Math.ceil(total / pageSize)\<close> can produce it from a count
  and an integer page size: an integer, \<^verbatim>\<open>Infinity\<close> (a positive count over 0) or
  \<^verbatim>\<open>NaN\<close> (0 over 0).
\<close>

datatype number = Finite int | Infinity | NaN

record CategoriesResponse =
  categories :: "Category list"
  total_n :: nat
  page :: int
  pageSize :: int
  totalPages :: number

text \<open>
  What the service throws: \<^verbatim>\<open>new Error(message)\<close>, which has no \<^verbatim>\<open>code\<close> property, and
  what the Prisma client rejects with: an error with a message and, for a known request
  error, a code such as \<^verbatim>\<open>P2002\<close> (unique constraint violation).
\<close>

datatype error = Error string | PrismaError "string option" string

fun code :: "error \<Rightarrow> string option" where
  "code (Error m) = None"
| "code (PrismaError c m) = c"

text \<open>
  The \<^verbatim>\<open>where\<close> objects the service builds. A field the object does not have is \<open>None\<close>.
  \<^verbatim>\<open>{ nome: v }\<close> is \<open>Equals v Default\<close>, \<^verbatim>\<open>{ nome: { equals: v, mode: 'insensitive' } }\<close> is
  \<open>Equals v Insensitive\<close>, \<^verbatim>\<open>{ contains: v, mode: 'insensitive' }\<close> is \<open>Contains v Insensitive\<close>.
\<close>

datatype QueryMode = Default | Insensitive

datatype StringFilter = Equals string QueryMode | Contains string QueryMode

datatype Condition = NomeCond StringFilter | DescricaoCond StringFilter

record WhereInput =
  where_id :: "string option"
  where_tenantId :: "string option"
  where_nome :: "StringFilter option"
  where_OR :: "Condition list option"

definition emptyWhere :: WhereInput where
  "emptyWhere = \<lparr>where_id = None, where_tenantId = None, where_nome = None, where_OR = None\<rparr>"

datatype SortOrder = asc | desc

section \<open>The Prisma client\<close>

text \<open>
  The service reaches the table through \<^verbatim>\<open>prisma.category\<close>, an object of the Prisma
  library. Every call returns a promise: awaited, it yields a value or rejects with an
  error, and it may change the table. A call is a function from the state of the world
  \<open>'s\<close> (the table and whatever else the client depends on, other requests included) to
  its outcome and the next state. The service functions take the client as their first
  argument and are stated for every client; \<open>orderBy\<close> is always on \<^verbatim>\<open>criadoEm\<close>.
\<close>

type_synonym ('a, 's) promise = "'s \<Rightarrow> (error + 'a) \<times> 's"

record 's PrismaCategory =
  findFirst :: "WhereInput \<Rightarrow> (Category option, 's) promise"
  findMany :: "WhereInput \<Rightarrow> SortOrder \<Rightarrow> int option \<Rightarrow> int option \<Rightarrow> (Category list, 's) promise"
  count :: "WhereInput \<Rightarrow> (nat, 's) promise"
  create :: "string \<Rightarrow> string \<Rightarrow> string option \<Rightarrow> string option \<Rightarrow> (Category, 's) promise"
  update :: "string \<Rightarrow> string \<Rightarrow> string \<Rightarrow> string option \<Rightarrow> (Category, 's) promise"
  delete :: "string \<Rightarrow> (Category, 's) promise"

text \<open>
  \<open>await m f\<close> is \<^verbatim>\<open>const x = await m; f(x)\<close>: a rejection of \<open>m\<close> leaves the function at
  once. \<open>try_catch m h\<close> is \<^verbatim>\<open>try { m } catch (error) { h(error) }\<close>.
\<close>

definition return :: "'a \<Rightarrow> ('a, 's) promise" where
  "return a s = (Inr a, s)"

definition throw :: "error \<Rightarrow> ('a, 's) promise" where
  "throw e s = (Inl e, s)"

definition await :: "('a, 's) promise \<Rightarrow> ('a \<Rightarrow> ('b, 's) promise) \<Rightarrow> ('b, 's) promise" where
  "await m f s = (case m s of (Inl e, s') \<Rightarrow> (Inl e, s') | (Inr a, s') \<Rightarrow> f a s')"

definition try_catch :: "('a, 's) promise \<Rightarrow> (error \<Rightarrow> ('a, 's) promise) \<Rightarrow> ('a, 's) promise" where
  "try_catch m h s = (case m s of (Inl e, s') \<Rightarrow> h e s' | (Inr a, s') \<Rightarrow> (Inr a, s'))"

section \<open>CategoryService\<close>

text \<open>
  \<^verbatim>\<open>if (tenantId !== undefined) where.tenantId = tenantId\<close>, the statement every function
  but \<^verbatim>\<open>createCategory\<close> repeats. An absent \<^verbatim>\<open>tenantId\<close> argument is \<open>None\<close>.
\<close>

definition applyTenantFilter :: "string option \<Rightarrow> WhereInput \<Rightarrow> WhereInput" where
  "applyTenantFilter tenantId_arg w =
     (if tenantId_arg \<noteq> None then w\<lparr>where_tenantId := tenantId_arg\<rparr> else w)"

text \<open>
  \<^verbatim>\<open>data.descricao || null\<close>: the left operand when it is truthy, that is a string other
  than the empty one.
\<close>

definition orNull :: "string option \<Rightarrow> string option" where
  "orNull d = (case d of None \<Rightarrow> None | Some v \<Rightarrow> if v = [] then None else Some v)"

text \<open>\<^verbatim>\<open>Math.ceil(total / pageSize)\<close> in IEEE arithmetic, on a count and an integer.\<close>

definition Math_ceil_div :: "nat \<Rightarrow> int \<Rightarrow> number" where
  "Math_ceil_div total_arg pageSize_arg =
     (if pageSize_arg = 0 then (if total_arg = 0 then NaN else Infinity)
      else Finite \<lceil>(of_nat total_arg :: rat) / of_int pageSize_arg\<rceil>)"

text \<open>
  The \<^verbatim>\<open>where\<close> of \<^verbatim>\<open>getCategories\<close> (lines 13 to 36): the tenant filter, and for a truthy
  \<^verbatim>\<open>search\<close> the two \<^verbatim>\<open>contains\<close> conditions on the lower-cased search string.
\<close>

definition getCategories_where :: "string option \<Rightarrow> string option \<Rightarrow> WhereInput" where
  "getCategories_where search tenantId_arg =
     (let w = applyTenantFilter tenantId_arg emptyWhere in
      case search of
        None \<Rightarrow> w
      | Some s \<Rightarrow>
          if s \<noteq> [] then
            (let searchLower = toLowerCase s in
             w\<lparr>where_OR := Some [NomeCond (Contains searchLower Insensitive),
                                  DescricaoCond (Contains searchLower Insensitive)]\<rparr>)
          else w)"

text \<open>
  \<^verbatim>\<open>page\<close> and \<^verbatim>\<open>pageSize\<close> are the values after the defaults 1 and 10 have stood in for
  an absent argument, and they are integers. \<^verbatim>\<open>Promise.all\<close> issues both queries before it
  awaits either, so the count runs even when \<^verbatim>\<open>findMany\<close> rejects; the function then
  rejects (with the error of \<^verbatim>\<open>findMany\<close> when both do).
\<close>

definition getCategories ::
  "'s PrismaCategory \<Rightarrow> string option \<Rightarrow> int \<Rightarrow> int \<Rightarrow> string option \<Rightarrow> (CategoriesResponse, 's) promise" where
  "getCategories db search page_arg pageSize_arg tenantId_arg s =
     (let w = getCategories_where search tenantId_arg;
          (r1, s1) = findMany db w desc (Some ((page_arg - 1) * pageSize_arg)) (Some pageSize_arg) s;
          (r2, s2) = count db w s1
      in case r1 of
           Inl e \<Rightarrow> (Inl e, s2)
         | Inr cs \<Rightarrow>
             (case r2 of
                Inl e \<Rightarrow> (Inl e, s2)
              | Inr n \<Rightarrow>
                  (Inr \<lparr>categories = cs, total_n = n, page = page_arg, pageSize = pageSize_arg,
                        totalPages = Math_ceil_div n pageSize_arg\<rparr>, s2)))"

definition notFound :: error where
  "notFound = Error (''Categoria n'' @ [CHR 0xE3] @ ''o encontrada'')"

definition getCategoryById ::
  "'s PrismaCategory \<Rightarrow> string \<Rightarrow> string option \<Rightarrow> (Category, 's) promise" where
  "getCategoryById db i tenantId_arg =
     (let w = applyTenantFilter tenantId_arg (emptyWhere\<lparr>where_id := Some i\<rparr>) in
      await (findFirst db w) (\<lambda>category.
        case category of
          None \<Rightarrow> throw notFound
        | Some c \<Rightarrow> return c))"

text \<open>
  \<^verbatim>\<open>createCategory\<close> hands \<^verbatim>\<open>tenantId\<close> to the client as it is: for an absent one the
  client leaves the column out and the row has no tenant.
\<close>

definition createCategory ::
  "'s PrismaCategory \<Rightarrow> CategoryInput \<Rightarrow> string option \<Rightarrow> (Category, 's) promise" where
  "createCategory db data tenantId_arg =
     await (create db (nome_in data) (cor_in data) (orNull (descricao_in data)) tenantId_arg)
       (\<lambda>newCategory. return newCategory)"

definition updateCategory ::
  "'s PrismaCategory \<Rightarrow> string \<Rightarrow> CategoryInput \<Rightarrow> string option \<Rightarrow> (Category, 's) promise" where
  "updateCategory db i data tenantId_arg =
     (let w = applyTenantFilter tenantId_arg (emptyWhere\<lparr>where_id := Some i\<rparr>) in
      await (findFirst db w) (\<lambda>existingCategory.
        case existingCategory of
          None \<Rightarrow> throw notFound
        | Some c \<Rightarrow>
            await (update db i (nome_in data) (cor_in data) (orNull (descricao_in data)))
              (\<lambda>updatedCategory. return updatedCategory)))"

definition deleteCategory ::
  "'s PrismaCategory \<Rightarrow> string \<Rightarrow> string option \<Rightarrow> (unit, 's) promise" where
  "deleteCategory db i tenantId_arg =
     (let w = applyTenantFilter tenantId_arg (emptyWhere\<lparr>where_id := Some i\<rparr>) in
      await (findFirst db w) (\<lambda>existingCategory.
        case existingCategory of
          None \<Rightarrow> throw notFound
        | Some c \<Rightarrow> await (delete db i) (\<lambda>deleted. return ())))"

definition getAllCategories ::
  "'s PrismaCategory \<Rightarrow> string option \<Rightarrow> (Category list, 's) promise" where
  "getAllCategories db tenantId_arg =
     (let w = applyTenantFilter tenantId_arg emptyWhere in findMany db w desc None None)"

definition nomeObrigatorio :: error where
  "nomeObrigatorio =
     Error (''Nome da categoria '' @ [CHR 0xE9] @ '' obrigat'' @ [CHR 0xF3] @ ''rio'')"

definition defaultColors :: "string list" where
  "defaultColors =
     [''#1e3a5f'', ''#4a9eff'', ''#10B981'', ''#F59E0B'', ''#EF4444'',
      ''#8B5CF6'', ''#F97316'', ''#06B6D4'', ''#84CC16'', ''#EC4899'']"

text \<open>
  The two \<^verbatim>\<open>where\<close> objects of \<^verbatim>\<open>findOrCreateCategoryByName\<close>: \<^verbatim>\<open>where\<close> (lines 158 to
  168) and \<^verbatim>\<open>fallbackWhere\<close> (lines 216 to 219).
\<close>

definition findOrCreate_where :: "string \<Rightarrow> string option \<Rightarrow> WhereInput" where
  "findOrCreate_where nomeTrimmed tenantId_arg =
     applyTenantFilter tenantId_arg (emptyWhere\<lparr>where_nome := Some (Equals nomeTrimmed Insensitive)\<rparr>)"

definition fallbackWhere :: "string \<Rightarrow> string option \<Rightarrow> WhereInput" where
  "fallbackWhere nomeTrimmed tenantId_arg =
     applyTenantFilter tenantId_arg (emptyWhere\<lparr>where_nome := Some (Equals nomeTrimmed Default)\<rparr>)"

text \<open>
  \<^verbatim>\<open>defaultColors[Math.floor(Math.random() * defaultColors.length)]\<close>, where \<open>random\<close> is
  the value \<^verbatim>\<open>Math.random()\<close> returns in this call: a number from 0 up to but not
  including 1, so that the index is one of 0 to 9.
\<close>

definition randomColor :: "rat \<Rightarrow> string" where
  "randomColor random = defaultColors ! nat \<lfloor>random * of_nat (length defaultColors)\<rfloor>"

text \<open>
  The \<^verbatim>\<open>catch\<close> block ends in \<^verbatim>\<open>throw error\<close> on each path that has not returned.
\<close>

definition findOrCreateCategoryByName ::
  "'s PrismaCategory \<Rightarrow> rat \<Rightarrow> string \<Rightarrow> string option \<Rightarrow> (string, 's) promise" where
  "findOrCreateCategoryByName db random nome_arg tenantId_arg =
     (if nome_arg = [] \<or> trim nome_arg = [] then throw nomeObrigatorio
      else
        (let nomeTrimmed = trim nome_arg;
             w = findOrCreate_where nomeTrimmed tenantId_arg
         in await (findFirst db w) (\<lambda>existingCategory.
              case existingCategory of
                Some c \<Rightarrow> return (id_cat c)
              | None \<Rightarrow>
                  (let color = randomColor random
                   in try_catch
                        (await (create db nomeTrimmed color None tenantId_arg)
                           (\<lambda>newCategory. return (id_cat newCategory)))
                        (\<lambda>error.
                           if code error = Some ''P2002'' then
                             await (findFirst db w) (\<lambda>category.
                               case category of
                                 Some c \<Rightarrow> return (id_cat c)
                               | None \<Rightarrow>
                                   await (findFirst db (fallbackWhere nomeTrimmed tenantId_arg))
                                     (\<lambda>fallbackCategory.
                                        case fallbackCategory of
                                          Some c \<Rightarrow> return (id_cat c)
                                        | None \<Rightarrow> throw error))
                           else throw error)))))"

section \<open>A reference store\<close>

text \<open>
  The table as a list of rows in insertion order, with the client operations as the
  Prisma client runs them on a PostgreSQL database: a \<^verbatim>\<open>where\<close> object is the conjunction
  of its fields, \<^verbatim>\<open>OR\<close> holds when one of its conditions does, and a filter on a \<^verbatim>\<open>NULL\<close>
  column matches no row.
\<close>

record Store =
  rows :: "Category list"
  nextId :: nat
  clock :: int

text \<open>
  The database's \<^verbatim>\<open>LIKE\<close>, pattern first: \<^verbatim>\<open>%\<close> stands for any run of characters, \<^verbatim>\<open>_\<close> for
  any one character, a backslash (U+005C) makes the character after it stand for
  itself, and every other character stands for itself. A pattern whose last character is
  an unescaped backslash matches nothing here; the database raises an error for it when
  its matcher comes to that backslash with text left, which depends on the rows it scans.
  \<^verbatim>\<open>ILIKE\<close> is \<^verbatim>\<open>LIKE\<close> on the lower-cased pattern and text.
\<close>

fun like :: "string \<Rightarrow> string \<Rightarrow> bool" where
  "like [] x = (x = [])"
| "like (c # p) x =
     (if c = CHR ''%'' then
        like p x \<or> (case x of [] \<Rightarrow> False | y # ys \<Rightarrow> like (c # p) ys)
      else if c = CHR ''_'' then
        (case x of [] \<Rightarrow> False | y # ys \<Rightarrow> like p ys)
      else if c = CHR 0x5C then
        (case p of
           [] \<Rightarrow> False
         | d # q \<Rightarrow> (case x of [] \<Rightarrow> False | y # ys \<Rightarrow> y = d \<and> like q ys))
      else
        (case x of [] \<Rightarrow> False | y # ys \<Rightarrow> y = c \<and> like p ys))"

definition ilike :: "string \<Rightarrow> string \<Rightarrow> bool" where
  "ilike p x = like (toLowerCase p) (toLowerCase x)"

text \<open>The pattern the client sends for \<^verbatim>\<open>contains: v\<close>: the value between two \<^verbatim>\<open>%\<close>.\<close>

definition containsPattern :: "string \<Rightarrow> string" where
  "containsPattern v = CHR ''%'' # v @ [CHR ''%'']"

text \<open>
  A string filter on a column. In the default mode \<^verbatim>\<open>equals\<close> is the equality of the
  database. In the mode \<^verbatim>\<open>insensitive\<close> the client sends the value as it is as an \<^verbatim>\<open>ILIKE\<close>
  pattern, so that a \<^verbatim>\<open>%\<close>, a \<^verbatim>\<open>_\<close> or a backslash in it is read as a pattern character;
  \<^verbatim>\<open>contains\<close> is \<^verbatim>\<open>LIKE\<close> or \<^verbatim>\<open>ILIKE\<close> with the value between two \<^verbatim>\<open>%\<close>.
\<close>

fun matchesString :: "StringFilter \<Rightarrow> string option \<Rightarrow> bool" where
  "matchesString f None = False"
| "matchesString (Equals v Default) (Some x) = (x = v)"
| "matchesString (Equals v Insensitive) (Some x) = ilike v x"
| "matchesString (Contains v Default) (Some x) = like (containsPattern v) x"
| "matchesString (Contains v Insensitive) (Some x) = ilike (containsPattern v) x"

fun matchesCondition :: "Condition \<Rightarrow> Category \<Rightarrow> bool" where
  "matchesCondition (NomeCond f) r = matchesString f (Some (nome r))"
| "matchesCondition (DescricaoCond f) r = matchesString f (descricao r)"

definition matches :: "WhereInput \<Rightarrow> Category \<Rightarrow> bool" where
  "matches w r =
     ((case where_id w of None \<Rightarrow> True | Some i \<Rightarrow> id_cat r = i) \<and>
      (case where_tenantId w of None \<Rightarrow> True | Some t \<Rightarrow> tenantId r = Some t) \<and>
      (case where_nome w of None \<Rightarrow> True | Some f \<Rightarrow> matchesString f (Some (nome r))) \<and>
      (case where_OR w of None \<Rightarrow> True | Some cs \<Rightarrow> list_ex (\<lambda>c. matchesCondition c r) cs))"

text \<open>
  \<^verbatim>\<open>orderBy: { criadoEm: ... }\<close>, as a stable sort (the order of rows with one timestamp
  is the database's choice).
\<close>

fun orderByCriadoEm :: "SortOrder \<Rightarrow> Category list \<Rightarrow> Category list" where
  "orderByCriadoEm asc rs = sort_key criadoEm rs"
| "orderByCriadoEm desc rs = sort_key (\<lambda>r. - criadoEm r) rs"

text \<open>
  \<^verbatim>\<open>skip\<close> and \<^verbatim>\<open>take\<close>: an absent \<^verbatim>\<open>skip\<close> is 0 and an absent \<^verbatim>\<open>take\<close> is no limit; the
  client rejects a negative \<^verbatim>\<open>skip\<close>, and a negative \<^verbatim>\<open>take\<close> counts from the end of the
  list.
\<close>

definition paginate :: "int option \<Rightarrow> int option \<Rightarrow> 'a list \<Rightarrow> error + 'a list" where
  "paginate skip_arg take_arg xs =
     (let k = (case skip_arg of None \<Rightarrow> 0 | Some i \<Rightarrow> i) in
      if k < 0 then Inl (PrismaError None ''Invalid value for skip argument'')
      else
        (case take_arg of
           None \<Rightarrow> Inr (drop (nat k) xs)
         | Some n \<Rightarrow>
             if 0 \<le> n then Inr (take (nat n) (drop (nat k) xs))
             else Inr (rev (take (nat (- n)) (drop (nat k) (rev xs))))))"

text \<open>
  Modelled from the spec: the unique constraint of the table, which the Prisma schema
  declares and the sources do not hold. "Within the same tenantId scope, no two rows may
  have nome equal under case-insensitive comparison (enforced by a uniqueness constraint
  at the store level)". \<open>uniqueViolation n t rs\<close>: a row of \<open>rs\<close> bars a row named \<open>n\<close> in
  tenant \<open>t\<close>.
\<close>

definition uniqueViolation :: "string \<Rightarrow> string option \<Rightarrow> Category list \<Rightarrow> bool" where
  "uniqueViolation n t rs =
     list_ex (\<lambda>r. tenantId r = t \<and> toLowerCase (nome r) = toLowerCase n) rs"

definition P2002 :: error where
  "P2002 = PrismaError (Some ''P2002'') ''Unique constraint failed''"

definition P2025 :: error where
  "P2025 = PrismaError (Some ''P2025'') ''Record not found''"

text \<open>The store generates the id of a new row from a counter and stamps it with its clock.\<close>

definition newId :: "nat \<Rightarrow> string" where
  "newId n = CHR ''c'' # replicate n (CHR ''0'')"

definition mem_findFirst :: "WhereInput \<Rightarrow> (Category option, Store) promise" where
  "mem_findFirst w s = (Inr (find (matches w) (rows s)), s)"

definition mem_findMany ::
  "WhereInput \<Rightarrow> SortOrder \<Rightarrow> int option \<Rightarrow> int option \<Rightarrow> (Category list, Store) promise" where
  "mem_findMany w ord skip_arg take_arg s =
     (paginate skip_arg take_arg (orderByCriadoEm ord (filter (matches w) (rows s))), s)"

definition mem_count :: "WhereInput \<Rightarrow> (nat, Store) promise" where
  "mem_count w s = (Inr (length (filter (matches w) (rows s))), s)"

definition mem_create ::
  "string \<Rightarrow> string \<Rightarrow> string option \<Rightarrow> string option \<Rightarrow> (Category, Store) promise" where
  "mem_create n c d t s =
     (if uniqueViolation n t (rows s) then (Inl P2002, s)
      else
        (let r = \<lparr>id_cat = newId (nextId s), nome = n, cor = c, descricao = d, tenantId = t,
                  criadoEm = clock s\<rparr>
         in (Inr r, s\<lparr>rows := rows s @ [r], nextId := nextId s + 1, clock := clock s + 1\<rparr>)))"

definition mem_update ::
  "string \<Rightarrow> string \<Rightarrow> string \<Rightarrow> string option \<Rightarrow> (Category, Store) promise" where
  "mem_update i n c d s =
     (case find (\<lambda>r. id_cat r = i) (rows s) of
        None \<Rightarrow> (Inl P2025, s)
      | Some r \<Rightarrow>
          if uniqueViolation n (tenantId r) (filter (\<lambda>x. id_cat x \<noteq> i) (rows s))
          then (Inl P2002, s)
          else (Inr (r\<lparr>nome := n, cor := c, descricao := d\<rparr>),
                s\<lparr>rows := map (\<lambda>x. if id_cat x = i then x\<lparr>nome := n, cor := c, descricao := d\<rparr>
                                     else x) (rows s)\<rparr>))"

definition mem_delete :: "string \<Rightarrow> (Category, Store) promise" where
  "mem_delete i s =
     (case find (\<lambda>r. id_cat r = i) (rows s) of
        None \<Rightarrow> (Inl P2025, s)
      | Some r \<Rightarrow> (Inr r, s\<lparr>rows := filter (\<lambda>x. id_cat x \<noteq> i) (rows s)\<rparr>))"

text \<open>
  The row the reference store inserts for \<^verbatim>\<open>findOrCreateCategoryByName\<close>: the trimmed name,
  the colour drawn, no description, the tenant of the call.
\<close>

definition createdRow :: "rat \<Rightarrow> string \<Rightarrow> string option \<Rightarrow> Store \<Rightarrow> Category" where
  "createdRow u n t s =
     \<lparr>id_cat = newId (nextId s), nome = trim n, cor = randomColor u, descricao = None,
      tenantId = t, criadoEm = clock s\<rparr>"

definition mem :: "Store PrismaCategory" where
  "mem = \<lparr>findFirst = mem_findFirst, findMany = mem_findMany, count = mem_count,
          create = mem_create, update = mem_update, delete = mem_delete\<rparr>"

text \<open>
  The race of \<^verbatim>\<open>findOrCreateCategoryByName\<close>: the reference store in which another
  request inserts the row \<open>r\<close> after this request's lookup and before its insert.
\<close>

definition mem_racing :: "Category \<Rightarrow> Store PrismaCategory" where
  "mem_racing r = mem\<lparr>create := \<lambda>n c d t s. mem_create n c d t (s\<lparr>rows := rows s @ [r]\<rparr>)\<rparr>"

section \<open>A scripted client\<close>

text \<open>
  A test double: it answers each call with the next entry of a script, whatever the call
  asks, and records the call. A script can hold any answers, so what holds of the
  service on every script holds whatever the store does; the record tells which calls
  the service made.
\<close>

datatype Call =
    FindFirst WhereInput
  | FindMany WhereInput SortOrder "int option" "int option"
  | Count WhereInput
  | Create string string "string option" "string option"
  | Update string string string "string option"
  | Delete string

datatype Answer =
    Found "error + Category option"
  | Listed "error + Category list"
  | Counted "error + nat"
  | Written "error + Category"

record Mock =
  script :: "Answer list"
  calls :: "Call list"

definition offScript :: error where
  "offScript = PrismaError None ''no answer in the script''"

definition answer :: "Call \<Rightarrow> (Answer \<Rightarrow> (error + 'a) option) \<Rightarrow> ('a, Mock) promise" where
  "answer c pick m =
     (case script m of
        [] \<Rightarrow> (Inl offScript, m\<lparr>calls := calls m @ [c]\<rparr>)
      | a # rest \<Rightarrow>
          (case pick a of
             None \<Rightarrow> (Inl offScript, m\<lparr>script := rest, calls := calls m @ [c]\<rparr>)
           | Some r \<Rightarrow> (r, m\<lparr>script := rest, calls := calls m @ [c]\<rparr>)))"

fun theFound :: "Answer \<Rightarrow> (error + Category option) option" where
  "theFound (Found r) = Some r"
| "theFound a = None"

fun theListed :: "Answer \<Rightarrow> (error + Category list) option" where
  "theListed (Listed r) = Some r"
| "theListed a = None"

fun theCounted :: "Answer \<Rightarrow> (error + nat) option" where
  "theCounted (Counted r) = Some r"
| "theCounted a = None"

fun theWritten :: "Answer \<Rightarrow> (error + Category) option" where
  "theWritten (Written r) = Some r"
| "theWritten a = None"

definition mock :: "Mock PrismaCategory" where
  "mock = \<lparr>findFirst = (\<lambda>w. answer (FindFirst w) theFound),
           findMany = (\<lambda>w ord skip_arg take_arg. answer (FindMany w ord skip_arg take_arg) theListed),
           count = (\<lambda>w. answer (Count w) theCounted),
           create = (\<lambda>n c d t. answer (Create n c d t) theWritten),
           update = (\<lambda>i n c d. answer (Update i n c d) theWritten),
           delete = (\<lambda>i. answer (Delete i) theWritten)\<rparr>"

section \<open>What the specification says, in its own words\<close>

text \<open>
  A row is visible in a tenant scope when the scope is the unscoped one (\<open>None\<close>, the
  super-admin bypass) or names the row's tenant.
\<close>

definition visible :: "string option \<Rightarrow> Category \<Rightarrow> bool" where
  "visible scope r = (case scope of None \<Rightarrow> True | Some t \<Rightarrow> tenantId r = Some t)"

text \<open>Two names are equal under case-insensitive comparison.\<close>

definition sameName :: "string \<Rightarrow> string \<Rightarrow> bool" where
  "sameName a b = (toLowerCase a = toLowerCase b)"

text \<open>
  A name or a search with none of the characters the database reads as part of a pattern:
  \<^verbatim>\<open>%\<close>, \<^verbatim>\<open>_\<close> and the backslash.
\<close>

definition isPatternChar :: "char \<Rightarrow> bool" where
  "isPatternChar c = (c = CHR ''%'' \<or> c = CHR ''_'' \<or> c = CHR 0x5C)"

definition noPatternChars :: "string \<Rightarrow> bool" where
  "noPatternChars s = (\<not> list_ex isPatternChar s)"

text \<open>
  "When search is present, it matches (case-insensitively) rows whose nome OR descricao
  contains the search string as a substring."
\<close>

definition searchContained :: "string \<Rightarrow> Category \<Rightarrow> bool" where
  "searchContained q r =
     (sublist (toLowerCase q) (toLowerCase (nome r)) \<or>
      (case descricao r of None \<Rightarrow> False | Some d \<Rightarrow> sublist (toLowerCase q) (toLowerCase d)))"

text \<open>
  The rows a search selects in the database: those whose \<^verbatim>\<open>nome\<close> or \<^verbatim>\<open>descricao\<close> is
  \<^verbatim>\<open>ILIKE\<close> the search between two \<^verbatim>\<open>%\<close>. For a search without pattern characters they are
  the rows of the sentence above (\<open>searchMatches_contained\<close>).
\<close>

definition searchMatches :: "string option \<Rightarrow> Category \<Rightarrow> bool" where
  "searchMatches search r =
     (case search of
        None \<Rightarrow> True
      | Some q \<Rightarrow>
          ilike (containsPattern q) (nome r) \<or>
          (case descricao r of None \<Rightarrow> False | Some d \<Rightarrow> ilike (containsPattern q) d))"

text \<open>The rows of a table that a listing in a scope with a search is about, in table order.\<close>

definition matchingRows :: "string option \<Rightarrow> string option \<Rightarrow> Category list \<Rightarrow> Category list" where
  "matchingRows search scope rs = filter (\<lambda>r. visible scope r \<and> searchMatches search r) rs"

text \<open>The rows visible in a scope whose name is a given one, case-insensitively.\<close>

definition rowsNamed :: "string \<Rightarrow> string option \<Rightarrow> Category list \<Rightarrow> Category list" where
  "rowsNamed n scope rs = filter (\<lambda>r. visible scope r \<and> sameName (nome r) n) rs"

text \<open>
  The invariant of the data model: "Within the same tenantId scope, no two rows may have
  nome equal under case-insensitive comparison."
\<close>

definition uniquePerTenant :: "Category list \<Rightarrow> bool" where
  "uniquePerTenant rs = distinct (map (\<lambda>r. (tenantId r, toLowerCase (nome r))) rs)"

text \<open>The rows a given tenant column owns (\<open>None\<close>: the rows of no tenant) with a given name.\<close>

definition rowsOwnedNamed :: "string \<Rightarrow> string option \<Rightarrow> Category list \<Rightarrow> Category list" where
  "rowsOwnedNamed n owner rs = filter (\<lambda>r. tenantId r = owner \<and> sameName (nome r) n) rs"

section \<open>Example tables\<close>

definition emptyStore :: Store where
  "emptyStore = \<lparr>rows = [], nextId = 0, clock = 0\<rparr>"

definition rowWork :: Category where
  "rowWork = \<lparr>id_cat = ''x1'', nome = ''work'', cor = ''#10B981'', descricao = None,
              tenantId = Some ''t1'', criadoEm = 7\<rparr>"

definition rowA :: Category where
  "rowA = \<lparr>id_cat = ''a1'', nome = ''Work'', cor = ''#10B981'', descricao = None,
           tenantId = Some ''A'', criadoEm = 1\<rparr>"

definition rowB :: Category where
  "rowB = \<lparr>id_cat = ''b1'', nome = ''work'', cor = ''#EF4444'', descricao = Some ''office'',
           tenantId = Some ''B'', criadoEm = 2\<rparr>"

definition twoTenants :: Store where
  "twoTenants = \<lparr>rows = [rowA, rowB], nextId = 2, clock = 3\<rparr>"

text \<open>A table whose one row, of the tenant \<^verbatim>\<open>t1\<close>, is named WorkX.\<close>

definition rowWorkX :: Category where
  "rowWorkX = \<lparr>id_cat = ''w1'', nome = ''WorkX'', cor = ''#F97316'', descricao = None,
               tenantId = Some ''t1'', criadoEm = 4\<rparr>"

definition storeWorkX :: Store where
  "storeWorkX = \<lparr>rows = [rowWorkX], nextId = 1, clock = 5\<rparr>"

text \<open>The table after another request has won the race with the row \<open>rowWork\<close>.\<close>

definition raceWon :: Store where
  "raceWon = \<lparr>rows = [rowWork], nextId = 0, clock = 0\<rparr>"

text \<open>
  Scripts for the scripted client: the insert fails on the unique constraint and only the
  exact lookup finds the row; the insert fails on it and no lookup finds a row; the
  insert fails because the database cannot be reached.
\<close>

definition scriptFallback :: Mock where
  "scriptFallback =
     \<lparr>script = [Found (Inr None), Written (Inl P2002), Found (Inr None),
                Found (Inr (Some rowWork))],
      calls = []\<rparr>"

definition scriptLost :: Mock where
  "scriptLost =
     \<lparr>script = [Found (Inr None), Written (Inl P2002), Found (Inr None), Found (Inr None)],
      calls = []\<rparr>"

definition P1001 :: error where
  "P1001 = PrismaError (Some ''P1001'') ''Cannot reach the database server''"

definition scriptDown :: Mock where
  "scriptDown =
     \<lparr>script = [Found (Inr None), Written (Inl P1001), Found (Inr (Some rowWork))],
      calls = []\<rparr>"

text \<open>
  The example of the specification: \<^verbatim>\<open>createCategory({nome: "Bills", cor: "#FF0000"}, "t1")\<close>
  on the empty table, the row it returns and the table it leaves.
\<close>

definition bills :: CategoryInput where
  "bills = \<lparr>nome_in = ''Bills'', cor_in = ''#FF0000'', descricao_in = None\<rparr>"

definition billsRow :: Category where
  "billsRow = \<lparr>id_cat = ''c'', nome = ''Bills'', cor = ''#FF0000'', descricao = None,
               tenantId = Some ''t1'', criadoEm = 0\<rparr>"

definition billsStore :: Store where
  "billsStore = \<lparr>rows = [billsRow], nextId = 1, clock = 1\<rparr>"

text \<open>
  A table with 25 rows of the tenant \<^verbatim>\<open>t1\<close>, created at the times 0 to 24, and one row of
  the tenant \<^verbatim>\<open>B\<close>.
\<close>

definition manyRows :: "Category list" where
  "manyRows = map (\<lambda>k. \<lparr>id_cat = newId k, nome = ''Note'', cor = ''#06B6D4'', descricao = None,
                          tenantId = Some ''t1'', criadoEm = int k\<rparr>) [0..<25]"

definition store25 :: Store where
  "store25 = \<lparr>rows = rowB # manyRows, nextId = 25, clock = 25\<rparr>"

text \<open>Inputs with an empty description and with a description.\<close>

definition renamed :: CategoryInput where
  "renamed = \<lparr>nome_in = ''Home'', cor_in = ''#84CC16'', descricao_in = Some []\<rparr>"

definition described :: CategoryInput where
  "described = \<lparr>nome_in = ''Bills'', cor_in = ''#FF0000'', descricao_in = Some ''monthly''\<rparr>"

section \<open>Basic facts\<close>

lemma mem_sel [simp]:
  "findFirst mem = mem_findFirst" "findMany mem = mem_findMany" "count mem = mem_count"
  "create mem = mem_create" "update mem = mem_update" "delete mem = mem_delete"
  by (simp_all add: mem_def)

lemma mock_sel [simp]:
  "findFirst mock w = answer (FindFirst w) theFound"
  "findMany mock w ord sk tk = answer (FindMany w ord sk tk) theListed"
  "count mock w = answer (Count w) theCounted"
  "create mock n c d t = answer (Create n c d t) theWritten"
  "update mock i n c d = answer (Update i n c d) theWritten"
  "delete mock i = answer (Delete i) theWritten"
  by (simp_all add: mock_def)

lemma answer_calls: "answer c pick m = (r, m') \<Longrightarrow> calls m' = calls m @ [c]"
  by (auto simp: answer_def split: list.splits option.splits)

subsection \<open>Strings\<close>

lemma trim_Nil [simp]: "trim [] = []"
  by (simp add: trim_def)

lemma dropWhile_rev_fixed:
  assumes "dropWhile P u = u"
  shows "dropWhile P (rev (dropWhile P (rev u))) = rev (dropWhile P (rev u))"
proof (cases u)
  case Nil
  then show ?thesis by simp
next
  case (Cons x xs)
  have "length (dropWhile P xs) \<le> length xs" by (rule length_dropWhile_le)
  with assms Cons have nx: "\<not> P x" by (auto split: if_splits)
  have "dropWhile P (rev u) = dropWhile P (rev xs) @ [x]"
    using nx Cons by (simp add: dropWhile_append3)
  then show ?thesis using nx by simp
qed

lemma trim_trim: "trim (trim s) = trim s"
proof -
  let ?u = "dropWhile isWhiteSpace s"
  have "dropWhile isWhiteSpace ?u = ?u" by (rule dropWhile_idem)
  from dropWhile_rev_fixed[OF this]
  show ?thesis by (simp add: trim_def)
qed

text \<open>A string trims to the empty one exactly when it is empty or all white space.\<close>

lemma trim_Nil_iff: "trim s = [] \<longleftrightarrow> list_all isWhiteSpace s"
proof
  assume "trim s = []"
  then have "dropWhile isWhiteSpace (rev (dropWhile isWhiteSpace s)) = []"
    by (simp add: trim_def)
  then have "\<forall>x\<in>set (dropWhile isWhiteSpace s). isWhiteSpace x"
    by (simp add: dropWhile_eq_Nil_conv)
  moreover have "dropWhile isWhiteSpace s \<noteq> [] \<Longrightarrow> \<not> isWhiteSpace (hd (dropWhile isWhiteSpace s))"
    by (rule hd_dropWhile)
  ultimately have "dropWhile isWhiteSpace s = []"
    by (cases "dropWhile isWhiteSpace s") auto
  then show "list_all isWhiteSpace s"
    by (simp add: dropWhile_eq_Nil_conv list_all_iff)
next
  assume "list_all isWhiteSpace s"
  then have d: "dropWhile isWhiteSpace s = []"
    by (simp add: list_all_iff)
  show "trim s = []"
    unfolding trim_def d by simp
qed

lemma toLowerCase_char_idem: "toLowerCase_char (toLowerCase_char c) = toLowerCase_char c"
  by (auto simp: toLowerCase_char_def Let_def)

lemma toLowerCase_idem: "toLowerCase (toLowerCase s) = toLowerCase s"
  by (simp add: toLowerCase_def toLowerCase_char_idem)

lemma toLowerCase_Nil: "toLowerCase [] = []"
  by (simp add: toLowerCase_def)

lemma toLowerCase_containsPattern:
  "toLowerCase (containsPattern v) = containsPattern (toLowerCase v)"
proof -
  have "toLowerCase_char (CHR ''%'') = CHR ''%''"
    by (simp add: toLowerCase_char_def)
  then show ?thesis by (simp add: toLowerCase_def containsPattern_def)
qed

lemma isPatternChar_toLowerCase_char [simp]:
  "isPatternChar (toLowerCase_char c) = isPatternChar c"
proof -
  have inj: "\<And>a b :: char. (a = b) = ((of_char a :: nat) = of_char b)" by simp
  show ?thesis
    unfolding isPatternChar_def toLowerCase_char_def Let_def
    by (auto simp: inj[of _ "CHR ''%''"] inj[of _ "CHR ''_''"] inj[of _ "CHR 0x5C"])
qed

lemma noPatternChars_toLowerCase [simp]: "noPatternChars (toLowerCase s) = noPatternChars s"
  by (induction s) (simp_all add: noPatternChars_def toLowerCase_def)

lemma sameName_noPatternChars:
  assumes "sameName a b" and "noPatternChars a"
  shows "noPatternChars b"
proof -
  from assms(2) have "noPatternChars (toLowerCase a)" by simp
  with assms(1) have "noPatternChars (toLowerCase b)" by (simp add: sameName_def)
  then show ?thesis by simp
qed

subsection \<open>Patterns\<close>

lemma like_all: "like ''%'' x"
  by (induction x) simp_all

text \<open>A pattern without pattern characters matches itself and nothing else.\<close>

lemma like_literal: "noPatternChars p \<Longrightarrow> like p x = (x = p)"
  by (induction p arbitrary: x)
     (auto simp: noPatternChars_def isPatternChar_def split: list.splits)

lemma like_literal_prefix: "noPatternChars p \<Longrightarrow> like (p @ ''%'') x = prefix p x"
proof (induction p arbitrary: x)
  case Nil
  then show ?case using like_all by simp
next
  case (Cons c p)
  then show ?case
    by (cases x) (auto simp: noPatternChars_def isPatternChar_def)
qed

lemma like_contains:
  assumes "noPatternChars p"
  shows "like (containsPattern p) x = sublist p x"
proof (induction x)
  case Nil
  have "like (p @ ''%'') [] = prefix p []" using assms by (rule like_literal_prefix)
  then show ?case by (simp add: containsPattern_def)
next
  case (Cons y ys)
  have "like (p @ ''%'') (y # ys) = prefix p (y # ys)" using assms by (rule like_literal_prefix)
  with Cons show ?case by (simp add: containsPattern_def sublist_Cons_right)
qed

lemma ilike_literal: "noPatternChars p \<Longrightarrow> ilike p x = sameName x p"
  by (simp add: ilike_def sameName_def like_literal)

lemma ilike_contains:
  "noPatternChars q \<Longrightarrow> ilike (containsPattern q) x = sublist (toLowerCase q) (toLowerCase x)"
  by (simp add: ilike_def toLowerCase_containsPattern like_contains)

lemma ilike_lowered: "ilike (containsPattern (toLowerCase q)) x = ilike (containsPattern q) x"
  by (simp add: ilike_def toLowerCase_containsPattern toLowerCase_idem)

lemma ilike_sameName: "sameName a b \<Longrightarrow> ilike a x = ilike b x"
  by (simp add: ilike_def sameName_def)

text \<open>
  For a search without pattern characters the rows the database selects are those of the
  specification's sentence; the empty search selects every row.
\<close>

lemma searchMatches_contained:
  "noPatternChars q \<Longrightarrow> searchMatches (Some q) r = searchContained q r"
  by (simp add: searchMatches_def searchContained_def ilike_contains split: option.splits)

lemma searchMatches_empty: "searchMatches (Some []) r"
proof -
  have "noPatternChars []" by (simp add: noPatternChars_def)
  then have "ilike (containsPattern []) (nome r)"
    by (simp add: ilike_contains toLowerCase_Nil)
  then show ?thesis by (simp add: searchMatches_def)
qed

text \<open>With \<^verbatim>\<open>Math.random()\<close> in its range, the colour drawn is one of the palette.\<close>

lemma randomColor_in_palette:
  assumes "0 \<le> u" and "u < 1"
  shows "randomColor u \<in> set defaultColors"
proof -
  have len: "length defaultColors = 10" by (simp add: defaultColors_def)
  from assms have "u * 10 < of_int 10" by simp
  then have up: "\<lfloor>u * 10\<rfloor> < 10" by (simp only: floor_less_iff)
  from assms have "of_int 0 \<le> u * 10" by simp
  then have lo: "0 \<le> \<lfloor>u * 10\<rfloor>" by (simp only: le_floor_iff)
  from lo up have "nat \<lfloor>u * 10\<rfloor> < 10" by linarith
  then have "defaultColors ! nat \<lfloor>u * 10\<rfloor> \<in> set defaultColors"
    by (simp only: len nth_mem)
  then show ?thesis by (simp add: randomColor_def len)
qed

subsection \<open>What the where objects select in the reference store\<close>

lemma findOrCreate_where_eq:
  "findOrCreate_where n t =
     \<lparr>where_id = None, where_tenantId = t, where_nome = Some (Equals n Insensitive),
      where_OR = None\<rparr>"
  by (cases t) (simp_all add: findOrCreate_where_def applyTenantFilter_def emptyWhere_def)

lemma fallbackWhere_eq:
  "fallbackWhere n t =
     \<lparr>where_id = None, where_tenantId = t, where_nome = Some (Equals n Default),
      where_OR = None\<rparr>"
  by (cases t) (simp_all add: fallbackWhere_def applyTenantFilter_def emptyWhere_def)

lemma matches_findOrCreate_where:
  "matches (findOrCreate_where n t) r = (visible t r \<and> ilike n (nome r))"
  by (cases t) (simp_all add: matches_def findOrCreate_where_eq visible_def)

lemma matches_findOrCreate_where_literal:
  "noPatternChars n \<Longrightarrow>
     matches (findOrCreate_where n t) r = (visible t r \<and> sameName (nome r) n)"
  by (simp add: matches_findOrCreate_where ilike_literal)

lemma matches_fallbackWhere:
  "matches (fallbackWhere n t) r = (visible t r \<and> nome r = n)"
  by (cases t)
     (simp_all add: matches_def fallbackWhere_def applyTenantFilter_def emptyWhere_def visible_def)

lemma matches_byId:
  "matches (applyTenantFilter t (emptyWhere\<lparr>where_id := Some i\<rparr>)) r =
     (visible t r \<and> id_cat r = i)"
  by (cases t) (auto simp add: matches_def applyTenantFilter_def emptyWhere_def visible_def)

lemma matches_getCategories_where:
  "matches (getCategories_where search t) r = (visible t r \<and> searchMatches search r)"
proof (cases search)
  case None
  then show ?thesis
    by (cases t)
       (simp_all add: matches_def getCategories_where_def applyTenantFilter_def emptyWhere_def
          visible_def searchMatches_def)
next
  case (Some q)
  show ?thesis
  proof (cases "q = []")
    case True
    with Some searchMatches_empty[of r] show ?thesis
      by (cases t)
         (simp_all add: matches_def getCategories_where_def applyTenantFilter_def emptyWhere_def
            visible_def)
  next
    case False
    with Some show ?thesis
      by (cases t; cases "descricao r")
         (simp_all add: matches_def getCategories_where_def applyTenantFilter_def emptyWhere_def
            visible_def searchMatches_def Let_def ilike_lowered)
  qed
qed

lemma sameName_where:
  "sameName a b \<Longrightarrow> matches (findOrCreate_where a t) = matches (findOrCreate_where b t)"
  by (rule ext) (simp add: matches_findOrCreate_where ilike_sameName)

lemma rowsNamed_filter:
  "noPatternChars n \<Longrightarrow> rowsNamed n t rs = filter (matches (findOrCreate_where n t)) rs"
  by (induction rs) (simp_all add: rowsNamed_def matches_findOrCreate_where_literal)

subsection \<open>Lists\<close>

lemma find_append:
  "find P (xs @ ys) = (case find P xs of None \<Rightarrow> find P ys | Some x \<Rightarrow> Some x)"
  by (induction xs) simp_all

lemma find_None_filter: "find P xs = None \<Longrightarrow> filter P xs = []"
  by (induction xs) (auto split: if_splits)

lemma find_Some_filter: "find P xs = Some x \<Longrightarrow> filter P xs \<noteq> [] \<and> P x"
  by (induction xs) (auto split: if_splits)

lemma find_SomeD: "find P xs = Some x \<Longrightarrow> P x \<and> x \<in> set xs"
  by (induction xs) (auto split: if_splits)

lemma distinct_key_filter:
  "distinct (map f xs) \<Longrightarrow> length (filter (\<lambda>x. f x = k) xs) \<le> 1"
proof (induction xs)
  case Nil
  then show ?case by simp
next
  case (Cons x xs)
  show ?case
  proof (cases "f x = k")
    case True
    with Cons.prems have "\<forall>y\<in>set xs. f y \<noteq> k" by (auto simp: image_iff)
    then have "filter (\<lambda>x. f x = k) xs = []" by (simp add: filter_empty_conv)
    with True show ?thesis by simp
  next
    case False
    with Cons show ?thesis by simp
  qed
qed

text \<open>
  Under the invariant of the data model, at most one row of a concrete tenant has a
  given name.
\<close>

lemma uniquePerTenant_rowsNamed:
  assumes "uniquePerTenant rs"
  shows "length (rowsNamed n (Some T) rs) \<le> 1"
proof -
  have "rowsNamed n (Some T) rs =
        filter (\<lambda>r. (tenantId r, toLowerCase (nome r)) = (Some T, toLowerCase n)) rs"
    by (induction rs) (auto simp: rowsNamed_def visible_def sameName_def)
  with distinct_key_filter[of "\<lambda>r. (tenantId r, toLowerCase (nome r))" rs "(Some T, toLowerCase n)"]
    assms
  show ?thesis by (simp add: uniquePerTenant_def)
qed

subsection \<open>The paths of findOrCreateCategoryByName\<close>

lemma findOrCreate_blank:
  "trim n = [] \<Longrightarrow> findOrCreateCategoryByName db u n t s = (Inl nomeObrigatorio, s)"
  by (simp add: findOrCreateCategoryByName_def throw_def)

lemma findOrCreate_unfold:
  assumes "trim n \<noteq> []"
  shows "findOrCreateCategoryByName db u n t s =
     (case findFirst db (findOrCreate_where (trim n) t) s of
        (Inl e, s1) \<Rightarrow> (Inl e, s1)
      | (Inr (Some c), s1) \<Rightarrow> (Inr (id_cat c), s1)
      | (Inr None, s1) \<Rightarrow>
          (case create db (trim n) (randomColor u) None t s1 of
             (Inr c, s2) \<Rightarrow> (Inr (id_cat c), s2)
           | (Inl e, s2) \<Rightarrow>
               if code e = Some ''P2002'' then
                 (case findFirst db (findOrCreate_where (trim n) t) s2 of
                    (Inl e', s3) \<Rightarrow> (Inl e', s3)
                  | (Inr (Some c), s3) \<Rightarrow> (Inr (id_cat c), s3)
                  | (Inr None, s3) \<Rightarrow>
                      (case findFirst db (fallbackWhere (trim n) t) s3 of
                         (Inl e', s4) \<Rightarrow> (Inl e', s4)
                       | (Inr (Some c), s4) \<Rightarrow> (Inr (id_cat c), s4)
                       | (Inr None, s4) \<Rightarrow> (Inl e, s4)))
               else (Inl e, s2)))"
proof -
  from assms have "n \<noteq> []" by auto
  with assms show ?thesis
    by (simp add: findOrCreateCategoryByName_def Let_def await_def try_catch_def return_def
        throw_def split: prod.splits sum.splits option.splits)
qed

text \<open>
  On the reference store: the row the lookup finds; or, when no row bars the name, an
  insert; or, when one does and the lookup has not seen it, the row the exact lookup finds
  or the error of the insert.
\<close>

lemma findOrCreate_mem_unfold:
  assumes "trim n \<noteq> []"
  shows "findOrCreateCategoryByName mem u n t s =
     (case find (matches (findOrCreate_where (trim n) t)) (rows s) of
        Some c \<Rightarrow> (Inr (id_cat c), s)
      | None \<Rightarrow>
          if uniqueViolation (trim n) t (rows s) then
            (case find (matches (fallbackWhere (trim n) t)) (rows s) of
               Some c \<Rightarrow> (Inr (id_cat c), s)
             | None \<Rightarrow> (Inl P2002, s))
          else
            (Inr (newId (nextId s)),
             s\<lparr>rows := rows s @ [createdRow u n t s], nextId := nextId s + 1,
               clock := clock s + 1\<rparr>))"
  using assms
  by (simp add: findOrCreate_unfold mem_findFirst_def mem_create_def createdRow_def Let_def
      P2002_def split: option.splits)

lemma no_match_no_violation:
  assumes "noPatternChars n" and "find (matches (findOrCreate_where n t)) rs = None"
  shows "\<not> uniqueViolation n t rs"
proof
  assume "uniqueViolation n t rs"
  then obtain r where r: "r \<in> set rs" "tenantId r = t" "toLowerCase (nome r) = toLowerCase n"
    by (auto simp: uniqueViolation_def list_ex_iff)
  then have "matches (findOrCreate_where n t) r"
    using assms(1)
    by (cases t) (simp_all add: matches_findOrCreate_where_literal visible_def sameName_def)
  with r(1) assms(2) show False by (auto simp: find_None_iff)
qed

lemma findOrCreate_mem_found:
  assumes "trim n \<noteq> []" and "find (matches (findOrCreate_where (trim n) t)) (rows s) = Some c"
  shows "findOrCreateCategoryByName mem u n t s = (Inr (id_cat c), s)"
  using assms by (simp add: findOrCreate_mem_unfold)

lemma findOrCreate_mem_created:
  assumes "trim n \<noteq> []" and "noPatternChars (trim n)"
    and "find (matches (findOrCreate_where (trim n) t)) (rows s) = None"
  shows "findOrCreateCategoryByName mem u n t s =
           (Inr (newId (nextId s)),
            s\<lparr>rows := rows s @ [createdRow u n t s], nextId := nextId s + 1, clock := clock s + 1\<rparr>)"
proof -
  have "\<not> uniqueViolation (trim n) t (rows s)"
    using assms(2,3) by (rule no_match_no_violation)
  then show ?thesis using assms by (simp add: findOrCreate_mem_unfold)
qed

text \<open>
  Whatever it returns, the call leaves the table as it was or with one row more, which
  no row barred; an id it returns is that of a row visible in the scope.
\<close>

lemma findOrCreate_mem_state:
  assumes "findOrCreateCategoryByName mem u n t s = (r, s')"
  shows "s' = s \<or>
         (\<not> uniqueViolation (trim n) t (rows s) \<and> r = Inr (newId (nextId s)) \<and>
          s' = s\<lparr>rows := rows s @ [createdRow u n t s], nextId := nextId s + 1,
                 clock := clock s + 1\<rparr>)"
proof (cases "trim n = []")
  case True
  from findOrCreate_blank[OF True, of mem u t s] assms show ?thesis by simp
next
  case False
  from assms show ?thesis
    by (auto simp: findOrCreate_mem_unfold[OF False] split: option.splits if_splits)
qed

lemma findOrCreate_mem_returned:
  assumes "findOrCreateCategoryByName mem u n t s = (Inr j, s')"
  shows "(s' = s \<and> (\<exists>c\<in>set (rows s). id_cat c = j \<and> visible t c)) \<or>
         (j = newId (nextId s) \<and>
          s' = s\<lparr>rows := rows s @ [createdRow u n t s], nextId := nextId s + 1,
                 clock := clock s + 1\<rparr>)"
proof (cases "trim n = []")
  case True
  from findOrCreate_blank[OF True, of mem u t s] assms show ?thesis by simp
next
  case False
  note unf = findOrCreate_mem_unfold[OF False, of u t s]
  show ?thesis
  proof (cases "find (matches (findOrCreate_where (trim n) t)) (rows s)")
    case (Some c)
    from find_SomeD[OF Some] have "visible t c" "c \<in> set (rows s)"
      by (simp_all add: matches_findOrCreate_where)
    moreover from unf Some assms have "s' = s" "j = id_cat c" by simp_all
    ultimately show ?thesis by blast
  next
    case None
    show ?thesis
    proof (cases "uniqueViolation (trim n) t (rows s)")
      case False
      with unf None assms show ?thesis by simp
    next
      case True
      show ?thesis
      proof (cases "find (matches (fallbackWhere (trim n) t)) (rows s)")
        case None': None
        with unf None True assms show ?thesis by simp
      next
        case (Some c)
        from find_SomeD[OF Some] have "visible t c" "c \<in> set (rows s)"
          by (simp_all add: matches_fallbackWhere)
        moreover from unf None True Some assms have "s' = s" "j = id_cat c" by simp_all
        ultimately show ?thesis by blast
      qed
    qed
  qed
qed

lemma findOrCreate_mem_rows:
  assumes "findOrCreateCategoryByName mem u n t s = (Inr i, s')"
  shows "rows s' = rows s \<or> (\<exists>r. rows s' = rows s @ [r] \<and> nome r = trim n \<and> id_cat r = i)"
  using findOrCreate_mem_returned[OF assms] by (auto simp: createdRow_def)

text \<open>
  The calls the scripted client records for a name that is not blank: first the lookup
  that compares the trimmed name in the mode \<^verbatim>\<open>insensitive\<close>, then nothing but the insert
  of the trimmed name, that lookup again and the lookup of the trimmed name itself.
\<close>

lemma findOrCreate_mock_calls:
  assumes "trim n \<noteq> []"
  shows "\<exists>rest. calls (snd (findOrCreateCategoryByName mock u n t m)) =
                  calls m @ FindFirst (findOrCreate_where (trim n) t) # rest \<and>
                set rest \<subseteq> {Create (trim n) (randomColor u) None t,
                            FindFirst (findOrCreate_where (trim n) t),
                            FindFirst (fallbackWhere (trim n) t)}"
  using assms
  by (auto simp: findOrCreate_unfold split: prod.splits sum.splits option.splits if_splits
      dest!: answer_calls)

lemma mem_findFirst_named:
  "findFirst mem (findOrCreate_where n t) s =
     (Inr (find (\<lambda>r. visible t r \<and> ilike n (nome r)) (rows s)), s)"
proof -
  have "matches (findOrCreate_where n t) = (\<lambda>r. visible t r \<and> ilike n (nome r))"
    by (rule ext) (rule matches_findOrCreate_where)
  then show ?thesis by (simp add: mem_findFirst_def)
qed

lemma mem_findFirst_exact:
  "findFirst mem (fallbackWhere n t) s =
     (Inr (find (\<lambda>r. visible t r \<and> nome r = n) (rows s)), s)"
proof -
  have "matches (fallbackWhere n t) = (\<lambda>r. visible t r \<and> nome r = n)"
    by (rule ext) (rule matches_fallbackWhere)
  then show ?thesis by (simp add: mem_findFirst_def)
qed

subsection \<open>Reads and writes on the reference store\<close>

lemma filter_matches_getCategories:
  "filter (matches (getCategories_where search t)) rs = matchingRows search t rs"
  by (induction rs) (simp_all add: matchingRows_def matches_getCategories_where)

lemma getCategoryById_mem:
  "getCategoryById mem i t s =
     (case find (\<lambda>r. visible t r \<and> id_cat r = i) (rows s) of
        None \<Rightarrow> (Inl notFound, s) | Some c \<Rightarrow> (Inr c, s))"
proof -
  have "matches (applyTenantFilter t (emptyWhere\<lparr>where_id := Some i\<rparr>)) = (\<lambda>r. visible t r \<and> id_cat r = i)"
    by (rule ext) (rule matches_byId)
  then show ?thesis
    by (simp add: getCategoryById_def Let_def await_def mem_findFirst_def throw_def return_def
        split: option.splits)
qed

lemma getCategoryById_mem_visible:
  assumes "getCategoryById mem i t s = (Inr c, s')"
  shows "visible t c \<and> id_cat c = i \<and> c \<in> set (rows s) \<and> s' = s"
  using assms by (auto simp: getCategoryById_mem split: option.splits dest: find_SomeD)

lemma paginate_set:
  assumes "paginate sk tk xs = Inr ys"
  shows "set ys \<subseteq> set xs"
  using assms
  by (auto simp: paginate_def Let_def split: if_splits option.splits
      dest!: in_set_takeD in_set_dropD)

lemma set_orderByCriadoEm [simp]: "set (orderByCriadoEm ord xs) = set xs"
  by (cases ord) simp_all

lemma getCategories_mem:
  "getCategories mem search p ps t s =
     (case paginate (Some ((p - 1) * ps)) (Some ps) (orderByCriadoEm desc (matchingRows search t (rows s))) of
        Inl e \<Rightarrow> (Inl e, s)
      | Inr cs \<Rightarrow>
          (Inr \<lparr>categories = cs, total_n = length (matchingRows search t (rows s)), page = p,
                pageSize = ps, totalPages = Math_ceil_div (length (matchingRows search t (rows s))) ps\<rparr>, s))"
  by (simp add: getCategories_def Let_def mem_findMany_def mem_count_def filter_matches_getCategories
      split: sum.splits)

lemma getCategories_mem_visible:
  assumes "getCategories mem search p ps t s = (Inr resp, s')"
  shows "\<forall>c\<in>set (categories resp). visible t c \<and> searchMatches search c \<and> c \<in> set (rows s)"
proof -
  from assms obtain cs where
    cs: "paginate (Some ((p - 1) * ps)) (Some ps) (orderByCriadoEm desc (matchingRows search t (rows s))) = Inr cs"
    and "categories resp = cs"
    by (auto simp: getCategories_mem split: sum.splits)
  moreover from paginate_set[OF cs] have "set cs \<subseteq> set (matchingRows search t (rows s))" by simp
  ultimately show ?thesis by (auto simp: matchingRows_def)
qed

lemma createCategory_mem:
  "createCategory mem data t s =
     (if uniqueViolation (nome_in data) t (rows s) then (Inl P2002, s)
      else (let r = \<lparr>id_cat = newId (nextId s), nome = nome_in data, cor = cor_in data,
                     descricao = orNull (descricao_in data), tenantId = t, criadoEm = clock s\<rparr>
            in (Inr r, s\<lparr>rows := rows s @ [r], nextId := nextId s + 1, clock := clock s + 1\<rparr>)))"
  by (simp add: createCategory_def await_def mem_create_def return_def Let_def)

lemma findOrCreate_mem_owner:
  assumes "findOrCreateCategoryByName mem u n t s = (Inr j, s')"
  shows "\<exists>c\<in>set (rows s'). id_cat c = j \<and> visible t c \<and> (t = None \<or> tenantId c = t)"
  using findOrCreate_mem_returned[OF assms]
  by (cases t) (auto simp: createdRow_def visible_def)

lemma findOrCreate_mem_inserted:
  assumes "findOrCreateCategoryByName mem u n t s = (Inr j, s')" and "rows s' = rows s @ [r]"
  shows "tenantId r = t \<and> nome r = trim n \<and> descricao r = None \<and> id_cat r = j"
  using findOrCreate_mem_returned[OF assms(1)] assms(2)
  by (auto simp: createdRow_def)

subsection \<open>Ordering and pages\<close>

lemma count_list_insort_key: "count_list (insort_key f x xs) y = count_list (x # xs) y"
  by (induction xs) auto

lemma count_list_sort_key: "count_list (sort_key f xs) y = count_list xs y"
  by (induction xs) (simp_all add: count_list_insort_key)

lemma count_list_orderByCriadoEm: "count_list (orderByCriadoEm ord xs) y = count_list xs y"
  by (cases ord) (simp_all add: count_list_sort_key)

lemma length_orderByCriadoEm [simp]: "length (orderByCriadoEm ord xs) = length xs"
  by (cases ord) simp_all

lemma sorted_orderByCriadoEm_desc:
  "sorted_wrt (\<lambda>a b. criadoEm b \<le> criadoEm a) (orderByCriadoEm desc xs)"
proof -
  have "sorted (map (\<lambda>r. - criadoEm r) (sort_key (\<lambda>r. - criadoEm r) xs))"
    by (rule sorted_sort_key)
  then show ?thesis by (simp add: sorted_map)
qed

lemma paginate_page:
  assumes "1 \<le> p" and "1 \<le> ps"
  shows "paginate (Some ((p - 1) * ps)) (Some ps) xs =
           Inr (take (nat ps) (drop (nat ((p - 1) * ps)) xs))"
proof -
  define k where "k = (p - 1) * ps"
  from assms have "0 \<le> k" by (simp add: k_def)
  with assms(2) have "paginate (Some k) (Some ps) xs = Inr (take (nat ps) (drop (nat k) xs))"
    by (simp add: paginate_def Let_def)
  then show ?thesis by (simp add: k_def)
qed

subsection \<open>Updates and deletions on the reference store\<close>

lemma byId_find:
  "find (matches (applyTenantFilter t (emptyWhere\<lparr>where_id := Some i\<rparr>))) rs =
     find (\<lambda>r. visible t r \<and> id_cat r = i) rs"
proof -
  have "matches (applyTenantFilter t (emptyWhere\<lparr>where_id := Some i\<rparr>)) = (\<lambda>r. visible t r \<and> id_cat r = i)"
    by (rule ext) (rule matches_byId)
  then show ?thesis by simp
qed

lemma updateCategory_mem:
  "updateCategory mem i data t s =
     (case find (\<lambda>r. visible t r \<and> id_cat r = i) (rows s) of
        None \<Rightarrow> (Inl notFound, s)
      | Some x \<Rightarrow> mem_update i (nome_in data) (cor_in data) (orNull (descricao_in data)) s)"
  by (simp add: updateCategory_def Let_def await_def mem_findFirst_def throw_def return_def byId_find
      split: option.splits prod.splits sum.splits)

lemma deleteCategory_mem:
  "deleteCategory mem i t s =
     (case find (\<lambda>r. visible t r \<and> id_cat r = i) (rows s) of
        None \<Rightarrow> (Inl notFound, s)
      | Some x \<Rightarrow> (case mem_delete i s of (Inl e, s') \<Rightarrow> (Inl e, s') | (Inr d, s') \<Rightarrow> (Inr (), s')))"
  by (simp add: deleteCategory_def Let_def await_def mem_findFirst_def throw_def return_def byId_find
      split: option.splits prod.splits sum.splits)

lemma find_None_list_ex: "find P xs = None \<longleftrightarrow> \<not> list_ex P xs"
  by (auto simp: find_None_iff list_ex_iff)

lemma mem_update_frame:
  assumes "mem_update i n c d s = (Inr x, s')"
  shows "rows s' = map (\<lambda>r. if id_cat r = i then r\<lparr>nome := n, cor := c, descricao := d\<rparr> else r) (rows s) \<and>
         nextId s' = nextId s \<and> clock s' = clock s \<and>
         (\<exists>r\<in>set (rows s). id_cat r = i \<and> x = r\<lparr>nome := n, cor := c, descricao := d\<rparr>)"
  using assms
  by (auto simp: mem_update_def split: option.splits if_splits dest: find_SomeD)

lemma orNull_cases:
  "orNull d \<noteq> Some [] \<and> (d = None \<or> d = Some [] \<longrightarrow> orNull d = None) \<and>
   (\<forall>v. d = Some v \<and> v \<noteq> [] \<longrightarrow> orNull d = Some v)"
  by (auto simp: orNull_def split: option.splits)

lemma updateCategory_mem_frame:
  assumes "updateCategory mem i data t s = (Inr c, s')"
  shows "rows s' = map (\<lambda>r. if id_cat r = i
                             then r\<lparr>nome := nome_in data, cor := cor_in data,
                                     descricao := orNull (descricao_in data)\<rparr>
                             else r) (rows s) \<and>
         map id_cat (rows s') = map id_cat (rows s) \<and>
         map tenantId (rows s') = map tenantId (rows s) \<and>
         map criadoEm (rows s') = map criadoEm (rows s) \<and>
         nextId s' = nextId s \<and> clock s' = clock s \<and>
         (\<exists>r\<in>set (rows s). id_cat r = i \<and> visible t r) \<and>
         (\<exists>r\<in>set (rows s). id_cat r = i \<and>
            c = r\<lparr>nome := nome_in data, cor := cor_in data, descricao := orNull (descricao_in data)\<rparr>) \<and>
         (descricao_in data = None \<longrightarrow> descricao c = None)"
proof -
  from assms obtain x where
    f: "find (\<lambda>r. visible t r \<and> id_cat r = i) (rows s) = Some x"
    and u: "mem_update i (nome_in data) (cor_in data) (orNull (descricao_in data)) s = (Inr c, s')"
    by (auto simp: updateCategory_mem split: option.splits)
  from find_SomeD[OF f] have vis: "\<exists>r\<in>set (rows s). id_cat r = i \<and> visible t r" by auto
  note fr = mem_update_frame[OF u]
  from fr have rs: "rows s' = map (\<lambda>r. if id_cat r = i
                             then r\<lparr>nome := nome_in data, cor := cor_in data,
                                     descricao := orNull (descricao_in data)\<rparr>
                             else r) (rows s)" by simp
  have "map id_cat (rows s') = map id_cat (rows s)"
    and "map tenantId (rows s') = map tenantId (rows s)"
    and "map criadoEm (rows s') = map criadoEm (rows s)"
    unfolding rs by (induction "rows s") auto
  moreover have "descricao_in data = None \<longrightarrow> descricao c = None"
    using fr by (auto simp: orNull_def)
  ultimately show ?thesis using fr vis by simp
qed

section \<open>The claims\<close>

text \<open>
  C1, as amended. For every tenant scope and every two names that are non-empty after
  trimming, have none of the characters \<^verbatim>\<open>%\<close>, \<^verbatim>\<open>_\<close> and backslash, and are equal after
  trimming under case-insensitive comparison (\<^verbatim>\<open>"Work"\<close> and \<^verbatim>\<open>"WORK "\<close>, or one name twice):
  if the table holds at most one row visible in the scope with that name, two sequential
  calls of \<^verbatim>\<open>findOrCreateCategoryByName\<close> on the reference store both return, with the same
  id, the second call leaves the table as the first left it, and afterwards exactly one
  row visible in the scope has that name. For a concrete tenant id the premise on the
  table follows from the uniqueness invariant (\<open>uniquePerTenant_rowsNamed\<close>).
\<close>

theorem findOrCreate_twice:
  assumes n1: "trim n1 \<noteq> []" and n2: "trim n2 \<noteq> []"
    and plain: "noPatternChars (trim n1)"
    and same: "sameName (trim n1) (trim n2)"
    and one: "length (rowsNamed (trim n1) t (rows s)) \<le> 1"
  shows "\<exists>i s1. findOrCreateCategoryByName mem u1 n1 t s = (Inr i, s1) \<and>
                 findOrCreateCategoryByName mem u2 n2 t s1 = (Inr i, s1) \<and>
                 length (rowsNamed (trim n1) t (rows s1)) = 1"
proof (cases "find (matches (findOrCreate_where (trim n1) t)) (rows s)")
  case (Some c)
  have eq: "matches (findOrCreate_where (trim n2) t) = matches (findOrCreate_where (trim n1) t)"
    using same by (rule sameName_where[symmetric])
  have "findOrCreateCategoryByName mem u1 n1 t s = (Inr (id_cat c), s)"
    using n1 Some by (rule findOrCreate_mem_found)
  moreover have "findOrCreateCategoryByName mem u2 n2 t s = (Inr (id_cat c), s)"
    using n2 Some by (intro findOrCreate_mem_found) (simp_all add: eq)
  moreover have "rowsNamed (trim n1) t (rows s) \<noteq> []"
    using find_Some_filter[OF Some] by (simp add: rowsNamed_filter[OF plain])
  with one have "length (rowsNamed (trim n1) t (rows s)) = 1"
    by (cases "rowsNamed (trim n1) t (rows s)") auto
  ultimately show ?thesis by blast
next
  case None
  let ?r = "createdRow u1 n1 t s"
  let ?s1 = "s\<lparr>rows := rows s @ [?r], nextId := nextId s + 1, clock := clock s + 1\<rparr>"
  have eq: "matches (findOrCreate_where (trim n2) t) = matches (findOrCreate_where (trim n1) t)"
    using same by (rule sameName_where[symmetric])
  have m: "matches (findOrCreate_where (trim n1) t) ?r"
    using plain
    by (cases t)
       (simp_all add: matches_findOrCreate_where_literal visible_def sameName_def createdRow_def)
  have nil: "filter (matches (findOrCreate_where (trim n1) t)) (rows s) = []"
    using None by (rule find_None_filter)
  have first: "findOrCreateCategoryByName mem u1 n1 t s = (Inr (newId (nextId s)), ?s1)"
    using n1 plain None by (rule findOrCreate_mem_created)
  have "find (matches (findOrCreate_where (trim n1) t)) (rows ?s1) = Some ?r"
    using None m by (simp add: find_append)
  then have "findOrCreateCategoryByName mem u2 n2 t ?s1 = (Inr (id_cat ?r), ?s1)"
    using n2 by (intro findOrCreate_mem_found) (simp_all add: eq)
  then have second: "findOrCreateCategoryByName mem u2 n2 t ?s1 = (Inr (newId (nextId s)), ?s1)"
    by (simp add: createdRow_def)
  have "length (rowsNamed (trim n1) t (rows ?s1)) = 1"
    using nil m by (simp add: rowsNamed_filter[OF plain])
  with first second show ?thesis by blast
qed

text \<open>
  The theorem at \<^verbatim>\<open>"Work"\<close> then \<^verbatim>\<open>"WORK "\<close> for the tenant \<^verbatim>\<open>t1\<close> on the empty table.
\<close>

theorem findOrCreate_twice_witness:
  "trim ''Work'' \<noteq> [] \<and> trim ''WORK '' \<noteq> [] \<and> noPatternChars (trim ''Work'') \<and>
   sameName (trim ''Work'') (trim ''WORK '') \<and>
   length (rowsNamed (trim ''Work'') (Some ''t1'') (rows emptyStore)) \<le> 1 \<and>
   (\<exists>i s1. findOrCreateCategoryByName mem 0 ''Work'' (Some ''t1'') emptyStore = (Inr i, s1) \<and>
            findOrCreateCategoryByName mem (1/2) ''WORK '' (Some ''t1'') s1 = (Inr i, s1) \<and>
            length (rowsNamed (trim ''Work'') (Some ''t1'') (rows s1)) = 1)"
proof -
  have h1: "trim ''Work'' \<noteq> []" by code_simp
  have h2: "trim ''WORK '' \<noteq> []" by code_simp
  have h3: "sameName (trim ''Work'') (trim ''WORK '')" by code_simp
  have h4: "length (rowsNamed (trim ''Work'') (Some ''t1'') (rows emptyStore)) \<le> 1" by code_simp
  have h5: "noPatternChars (trim ''Work'')" by code_simp
  from findOrCreate_twice[OF h1 h2 h5 h3 h4, where ?u1.0 = 0 and ?u2.0 = "1/2"] h1 h2 h3 h4 h5
  show ?thesis by blast
qed

text \<open>
  The claim as stated fails in two ways. In the unscoped scope: the table \<open>twoTenants\<close>
  satisfies the uniqueness invariant, the tenants \<^verbatim>\<open>A\<close> and \<^verbatim>\<open>B\<close> each having one row named
  Work; both unscoped calls return the id of the row of \<^verbatim>\<open>A\<close> and insert nothing; the rows
  visible in the unscoped scope with that name are two, and the rows of no tenant with it
  are none. With a pattern character in the name: on the table \<open>storeWorkX\<close>, whose one row
  of the tenant \<^verbatim>\<open>t1\<close> is named WorkX, both calls for \<^verbatim>\<open>Work_\<close> in that tenant return the
  id of that row and insert nothing, and no row is named \<^verbatim>\<open>Work_\<close>.
\<close>

theorem findOrCreate_twice_counterexample:
  "uniquePerTenant (rows twoTenants) \<and>
   findOrCreateCategoryByName mem 0 ''Work'' None twoTenants = (Inr ''a1'', twoTenants) \<and>
   findOrCreateCategoryByName mem (1/2) ''WORK '' None twoTenants = (Inr ''a1'', twoTenants) \<and>
   length (rowsNamed (trim ''Work'') None (rows twoTenants)) = 2 \<and>
   length (rowsOwnedNamed (trim ''Work'') None (rows twoTenants)) = 0 \<and>
   uniquePerTenant (rows storeWorkX) \<and>
   length (rowsNamed (trim ''Work_'') (Some ''t1'') (rows storeWorkX)) = 0 \<and>
   findOrCreateCategoryByName mem 0 ''Work_'' (Some ''t1'') storeWorkX = (Inr ''w1'', storeWorkX) \<and>
   findOrCreateCategoryByName mem (1/2) ''Work_'' (Some ''t1'') storeWorkX = (Inr ''w1'', storeWorkX)"
  by code_simp

text \<open>
  C2. In \<^verbatim>\<open>findOrCreateCategoryByName\<close>, whatever the client, when the first lookup finds
  nothing and the insert is rejected with the code \<^verbatim>\<open>P2002\<close>, the rejection is not passed
  on: the lookup with the same \<^verbatim>\<open>where\<close> runs again and the id of the row it finds is
  returned; when it finds nothing, the lookup with \<^verbatim>\<open>fallbackWhere\<close> runs and the id of the
  row it finds is returned; when neither finds a row, the function rejects with the error
  of the insert. The first \<^verbatim>\<open>where\<close> is the tenant scope and \<^verbatim>\<open>equals\<close> the trimmed name in
  the mode \<^verbatim>\<open>insensitive\<close>, and \<^verbatim>\<open>fallbackWhere\<close> the tenant scope and the trimmed name
  itself. On the reference store the first selects the rows visible in the scope whose
  name is \<^verbatim>\<open>ILIKE\<close> the trimmed one, which for a trimmed name without pattern characters are
  those whose name is the trimmed one case-insensitively, and \<^verbatim>\<open>fallbackWhere\<close> those whose
  name is exactly the trimmed one.
\<close>

theorem unique_violation_recovery:
  assumes "trim n \<noteq> []"
    and "findFirst db (findOrCreate_where (trim n) t) s = (Inr None, s1)"
    and "create db (trim n) (randomColor u) None t s1 = (Inl e, s2)"
    and "code e = Some ''P2002''"
  shows "(findFirst db (findOrCreate_where (trim n) t) s2 = (Inr (Some c), s3) \<longrightarrow>
            findOrCreateCategoryByName db u n t s = (Inr (id_cat c), s3)) \<and>
         (findFirst db (findOrCreate_where (trim n) t) s2 = (Inr None, s3) \<and>
          findFirst db (fallbackWhere (trim n) t) s3 = (Inr (Some c), s4) \<longrightarrow>
            findOrCreateCategoryByName db u n t s = (Inr (id_cat c), s4)) \<and>
         (findFirst db (findOrCreate_where (trim n) t) s2 = (Inr None, s3) \<and>
          findFirst db (fallbackWhere (trim n) t) s3 = (Inr None, s4) \<longrightarrow>
            findOrCreateCategoryByName db u n t s = (Inl e, s4)) \<and>
         findOrCreate_where (trim n) t =
           \<lparr>where_id = None, where_tenantId = t,
            where_nome = Some (Equals (trim n) Insensitive), where_OR = None\<rparr> \<and>
         fallbackWhere (trim n) t =
           \<lparr>where_id = None, where_tenantId = t,
            where_nome = Some (Equals (trim n) Default), where_OR = None\<rparr> \<and>
         matches (findOrCreate_where (trim n) t) r = (visible t r \<and> ilike (trim n) (nome r)) \<and>
         (noPatternChars (trim n) \<longrightarrow>
            matches (findOrCreate_where (trim n) t) r =
              (visible t r \<and> sameName (nome r) (trim n))) \<and>
         matches (fallbackWhere (trim n) t) r = (visible t r \<and> nome r = trim n)"
proof -
  note unf = findOrCreate_unfold[OF assms(1), of db u t s]
  have a: "findFirst db (findOrCreate_where (trim n) t) s2 = (Inr (Some c), s3) \<longrightarrow>
            findOrCreateCategoryByName db u n t s = (Inr (id_cat c), s3)"
    using assms by (simp add: unf)
  have b: "findFirst db (findOrCreate_where (trim n) t) s2 = (Inr None, s3) \<and>
          findFirst db (fallbackWhere (trim n) t) s3 = (Inr (Some c), s4) \<longrightarrow>
            findOrCreateCategoryByName db u n t s = (Inr (id_cat c), s4)"
    using assms by (simp add: unf)
  have c: "findFirst db (findOrCreate_where (trim n) t) s2 = (Inr None, s3) \<and>
          findFirst db (fallbackWhere (trim n) t) s3 = (Inr None, s4) \<longrightarrow>
            findOrCreateCategoryByName db u n t s = (Inl e, s4)"
    using assms by (simp add: unf)
  have w: "findOrCreate_where (trim n) t =
           \<lparr>where_id = None, where_tenantId = t,
            where_nome = Some (Equals (trim n) Insensitive), where_OR = None\<rparr>"
    by (cases t) (simp_all add: findOrCreate_where_def applyTenantFilter_def emptyWhere_def)
  have f: "fallbackWhere (trim n) t =
           \<lparr>where_id = None, where_tenantId = t,
            where_nome = Some (Equals (trim n) Default), where_OR = None\<rparr>"
    by (cases t) (simp_all add: fallbackWhere_def applyTenantFilter_def emptyWhere_def)
  have mw: "matches (findOrCreate_where (trim n) t) r = (visible t r \<and> ilike (trim n) (nome r))"
    unfolding w by (cases t) (simp_all add: matches_def visible_def)
  have mf: "matches (fallbackWhere (trim n) t) r = (visible t r \<and> nome r = trim n)"
    unfolding f by (cases t) (simp_all add: matches_def visible_def)
  have d: "noPatternChars (trim n) \<longrightarrow>
            matches (findOrCreate_where (trim n) t) r =
              (visible t r \<and> sameName (nome r) (trim n))"
    by (simp add: mw ilike_literal)
  from a b c w f mw d mf show ?thesis by blast
qed

text \<open>
  The theorem in three runs for \<^verbatim>\<open>"Work"\<close> and the tenant \<^verbatim>\<open>t1\<close>: on the reference store
  when another request inserts \<open>rowWork\<close> between the lookup and the insert, and on the
  scripts \<open>scriptFallback\<close> and \<open>scriptLost\<close>.
\<close>

theorem unique_violation_recovery_witness:
  "findOrCreateCategoryByName (mem_racing rowWork) (1/2) ''Work'' (Some ''t1'') emptyStore =
     (Inr ''x1'', raceWon) \<and>
   fst (findOrCreateCategoryByName mock (1/2) ''Work'' (Some ''t1'') scriptFallback) = Inr ''x1'' \<and>
   fst (findOrCreateCategoryByName mock (1/2) ''Work'' (Some ''t1'') scriptLost) = Inl P2002 \<and>
   trim ''Work'' \<noteq> [] \<and> code P2002 = Some ''P2002''"
proof -
  let ?w = "findOrCreate_where (trim ''Work'') (Some ''t1'')"
  let ?f = "fallbackWhere (trim ''Work'') (Some ''t1'')"
  let ?c = "Create (trim ''Work'') (randomColor (1/2)) None (Some ''t1'')"
  have n: "trim ''Work'' \<noteq> []" by code_simp
  have p: "code P2002 = Some ''P2002''" by code_simp
  have a1: "findFirst (mem_racing rowWork) ?w emptyStore = (Inr None, emptyStore)" by code_simp
  have a2: "create (mem_racing rowWork) (trim ''Work'') (randomColor (1/2)) None (Some ''t1'') emptyStore
              = (Inl P2002, raceWon)" by code_simp
  have a3: "findFirst (mem_racing rowWork) ?w raceWon = (Inr (Some rowWork), raceWon)" by code_simp
  have a: "findOrCreateCategoryByName (mem_racing rowWork) (1/2) ''Work'' (Some ''t1'') emptyStore =
     (Inr (id_cat rowWork), raceWon)"
    using unique_violation_recovery[OF n a1 a2 p] a3 by blast
  let ?m1 = "\<lparr>script = [Written (Inl P2002), Found (Inr None), Found (Inr (Some rowWork))], calls = [FindFirst ?w]\<rparr>"
  let ?m2 = "\<lparr>script = [Found (Inr None), Found (Inr (Some rowWork))], calls = [FindFirst ?w, ?c]\<rparr>"
  let ?m3 = "\<lparr>script = [Found (Inr (Some rowWork))], calls = [FindFirst ?w, ?c, FindFirst ?w]\<rparr>"
  let ?m4 = "\<lparr>script = [], calls = [FindFirst ?w, ?c, FindFirst ?w, FindFirst ?f]\<rparr>"
  have b1: "findFirst mock ?w scriptFallback = (Inr None, ?m1)" by code_simp
  have b2: "create mock (trim ''Work'') (randomColor (1/2)) None (Some ''t1'') ?m1 = (Inl P2002, ?m2)" by code_simp
  have b3: "findFirst mock ?w ?m2 = (Inr None, ?m3)" by code_simp
  have b4: "findFirst mock ?f ?m3 = (Inr (Some rowWork), ?m4)" by code_simp
  have b: "findOrCreateCategoryByName mock (1/2) ''Work'' (Some ''t1'') scriptFallback = (Inr (id_cat rowWork), ?m4)"
    using unique_violation_recovery[OF n b1 b2 p] b3 b4 by blast
  let ?k1 = "\<lparr>script = [Written (Inl P2002), Found (Inr None), Found (Inr None)], calls = [FindFirst ?w]\<rparr>"
  let ?k2 = "\<lparr>script = [Found (Inr None), Found (Inr None)], calls = [FindFirst ?w, ?c]\<rparr>"
  let ?k3 = "\<lparr>script = [Found (Inr None)], calls = [FindFirst ?w, ?c, FindFirst ?w]\<rparr>"
  have c1: "findFirst mock ?w scriptLost = (Inr None, ?k1)" by code_simp
  have c2: "create mock (trim ''Work'') (randomColor (1/2)) None (Some ''t1'') ?k1 = (Inl P2002, ?k2)" by code_simp
  have c3: "findFirst mock ?w ?k2 = (Inr None, ?k3)" by code_simp
  have c4: "findFirst mock ?f ?k3 = (Inr None, ?m4)" by code_simp
  have c: "findOrCreateCategoryByName mock (1/2) ''Work'' (Some ''t1'') scriptLost = (Inl P2002, ?m4)"
    using unique_violation_recovery[OF n c1 c2 p] c3 c4 by blast
  have i: "id_cat rowWork = ''x1''" by code_simp
  from a b c n p i show ?thesis by simp
qed

text \<open>
  C3. \<^verbatim>\<open>findOrCreateCategoryByName\<close> with a name that is empty after trimming (an empty or
  all-white-space name, \<open>trim_Nil_iff\<close>) rejects with \<open>nomeObrigatorio\<close>, the error of the
  message \<^verbatim>\<open>Nome da categoria\<close> U+00E9 \<^verbatim>\<open>obrigat\<close>U+00F3\<^verbatim>\<open>rio\<close>; the state of every client is
  untouched and the scripted client records no call. With any other name the result is
  the one for the trimmed name. The calls the scripted client records are then: first a
  lookup whose \<^verbatim>\<open>where\<close> is the tenant scope and \<^verbatim>\<open>equals\<close> the trimmed name in the mode
  \<^verbatim>\<open>insensitive\<close>, and after it nothing but the insert of the trimmed name, that lookup
  again and the lookup whose \<^verbatim>\<open>where\<close> is the tenant scope and the trimmed name itself.
  On the reference store the first of these lookups compares the names of the rows with
  the trimmed name by \<^verbatim>\<open>ILIKE\<close> and the other by equality, and a row the store inserts
  carries the trimmed name.
\<close>

theorem blank_name_rejected:
  "(trim n = [] \<longrightarrow>
      findOrCreateCategoryByName db u n t s = (Inl nomeObrigatorio, s) \<and>
      calls (snd (findOrCreateCategoryByName mock u n t m)) = calls m) \<and>
   (trim n \<noteq> [] \<longrightarrow>
      findOrCreateCategoryByName db u n t s = findOrCreateCategoryByName db u (trim n) t s \<and>
      (\<exists>rest. calls (snd (findOrCreateCategoryByName mock u n t m)) =
                calls m @
                FindFirst \<lparr>where_id = None, where_tenantId = t,
                           where_nome = Some (Equals (trim n) Insensitive), where_OR = None\<rparr> #
                rest \<and>
              set rest \<subseteq>
                {Create (trim n) (randomColor u) None t,
                 FindFirst \<lparr>where_id = None, where_tenantId = t,
                            where_nome = Some (Equals (trim n) Insensitive), where_OR = None\<rparr>,
                 FindFirst \<lparr>where_id = None, where_tenantId = t,
                            where_nome = Some (Equals (trim n) Default), where_OR = None\<rparr>}) \<and>
      findFirst mem \<lparr>where_id = None, where_tenantId = t,
                     where_nome = Some (Equals (trim n) Insensitive), where_OR = None\<rparr> st =
        (Inr (find (\<lambda>r. visible t r \<and> ilike (trim n) (nome r)) (rows st)), st) \<and>
      findFirst mem \<lparr>where_id = None, where_tenantId = t,
                     where_nome = Some (Equals (trim n) Default), where_OR = None\<rparr> st =
        (Inr (find (\<lambda>r. visible t r \<and> nome r = trim n) (rows st)), st) \<and>
      (findOrCreateCategoryByName mem u n t st = (Inr i, st') \<longrightarrow>
         rows st' = rows st \<or> (\<exists>r. rows st' = rows st @ [r] \<and> nome r = trim n \<and> id_cat r = i)))"
proof -
  have w: "findOrCreate_where (trim n) t =
           \<lparr>where_id = None, where_tenantId = t,
            where_nome = Some (Equals (trim n) Insensitive), where_OR = None\<rparr>"
    by (cases t) (simp_all add: findOrCreate_where_def applyTenantFilter_def emptyWhere_def)
  have f: "fallbackWhere (trim n) t =
           \<lparr>where_id = None, where_tenantId = t,
            where_nome = Some (Equals (trim n) Default), where_OR = None\<rparr>"
    by (cases t) (simp_all add: fallbackWhere_def applyTenantFilter_def emptyWhere_def)
  show ?thesis
proof (intro conjI impI)
  assume "trim n = []"
  then show "findOrCreateCategoryByName db u n t s = (Inl nomeObrigatorio, s)"
    by (rule findOrCreate_blank)
next
  assume "trim n = []"
  then show "calls (snd (findOrCreateCategoryByName mock u n t m)) = calls m"
    by (simp add: findOrCreate_blank)
next
  assume a: "trim n \<noteq> []"
  then have b: "trim (trim n) \<noteq> []" by (simp add: trim_trim)
  show "findOrCreateCategoryByName db u n t s = findOrCreateCategoryByName db u (trim n) t s"
    unfolding findOrCreate_unfold[OF a] findOrCreate_unfold[OF b] trim_trim ..
next
  assume "trim n \<noteq> []"
  from findOrCreate_mock_calls[OF this, of u t m]
  show "\<exists>rest. calls (snd (findOrCreateCategoryByName mock u n t m)) =
                calls m @
                FindFirst \<lparr>where_id = None, where_tenantId = t,
                           where_nome = Some (Equals (trim n) Insensitive), where_OR = None\<rparr> #
                rest \<and>
              set rest \<subseteq>
                {Create (trim n) (randomColor u) None t,
                 FindFirst \<lparr>where_id = None, where_tenantId = t,
                            where_nome = Some (Equals (trim n) Insensitive), where_OR = None\<rparr>,
                 FindFirst \<lparr>where_id = None, where_tenantId = t,
                            where_nome = Some (Equals (trim n) Default), where_OR = None\<rparr>}"
    by (simp only: w f)
next
  show "findFirst mem \<lparr>where_id = None, where_tenantId = t,
                     where_nome = Some (Equals (trim n) Insensitive), where_OR = None\<rparr> st =
        (Inr (find (\<lambda>r. visible t r \<and> ilike (trim n) (nome r)) (rows st)), st)"
    using mem_findFirst_named[of "trim n" t st] by (simp only: w)
next
  show "findFirst mem \<lparr>where_id = None, where_tenantId = t,
                     where_nome = Some (Equals (trim n) Default), where_OR = None\<rparr> st =
        (Inr (find (\<lambda>r. visible t r \<and> nome r = trim n) (rows st)), st)"
    using mem_findFirst_exact[of "trim n" t st] by (simp only: f)
next
  assume "findOrCreateCategoryByName mem u n t st = (Inr i, st')"
  then show "rows st' = rows st \<or> (\<exists>r. rows st' = rows st @ [r] \<and> nome r = trim n \<and> id_cat r = i)"
    by (rule findOrCreate_mem_rows)
qed
qed

text \<open>
  The theorem at a name of a space, a tab and a no-break space, and at \<^verbatim>\<open>" Bills  "\<close>: on a
  table that holds Bills the row is found, on one that does not a row named Bills is
  inserted, and the calls on the script \<open>scriptLost\<close> all carry Bills.
\<close>

theorem blank_name_rejected_witness:
  "trim [CHR 0x20, CHR 0x09, CHR 0xA0] = [] \<and>
   findOrCreateCategoryByName mem 0 [CHR 0x20, CHR 0x09, CHR 0xA0] (Some ''t1'') twoTenants =
     (Inl nomeObrigatorio, twoTenants) \<and>
   calls (snd (findOrCreateCategoryByName mock 0 [CHR 0x20, CHR 0x09, CHR 0xA0] (Some ''t1'') scriptLost)) = [] \<and>
   trim '' Bills  '' = ''Bills'' \<and>
   findOrCreateCategoryByName mem 0 '' Bills  '' (Some ''t1'') twoTenants =
     findOrCreateCategoryByName mem 0 ''Bills'' (Some ''t1'') twoTenants \<and>
   nome (last (rows (snd (findOrCreateCategoryByName mem 0 '' Bills  '' (Some ''t1'') twoTenants)))) = ''Bills'' \<and>
   findOrCreateCategoryByName mem 0 '' Bills  '' (Some ''t1'') billsStore = (Inr ''c'', billsStore) \<and>
   calls (snd (findOrCreateCategoryByName mock 0 '' Bills  '' (Some ''t1'') scriptLost)) =
     [FindFirst \<lparr>where_id = None, where_tenantId = Some ''t1'',
                 where_nome = Some (Equals ''Bills'' Insensitive), where_OR = None\<rparr>,
      Create ''Bills'' ''#1e3a5f'' None (Some ''t1''),
      FindFirst \<lparr>where_id = None, where_tenantId = Some ''t1'',
                 where_nome = Some (Equals ''Bills'' Insensitive), where_OR = None\<rparr>,
      FindFirst \<lparr>where_id = None, where_tenantId = Some ''t1'',
                 where_nome = Some (Equals ''Bills'' Default), where_OR = None\<rparr>]"
proof -
  let ?b = "[CHR 0x20, CHR 0x09, CHR 0xA0]"
  have h1: "trim ?b = []" by code_simp
  have h2: "trim '' Bills  '' = ''Bills''" by code_simp
  have h3: "calls scriptLost = []" by code_simp
  have h4: "nome (last (rows (snd (findOrCreateCategoryByName mem 0 '' Bills  '' (Some ''t1'') twoTenants)))) = ''Bills''"
    by code_simp
  have h5: "findOrCreateCategoryByName mem 0 '' Bills  '' (Some ''t1'') billsStore = (Inr ''c'', billsStore)"
    by code_simp
  have h6: "calls (snd (findOrCreateCategoryByName mock 0 '' Bills  '' (Some ''t1'') scriptLost)) =
     [FindFirst \<lparr>where_id = None, where_tenantId = Some ''t1'',
                 where_nome = Some (Equals ''Bills'' Insensitive), where_OR = None\<rparr>,
      Create ''Bills'' ''#1e3a5f'' None (Some ''t1''),
      FindFirst \<lparr>where_id = None, where_tenantId = Some ''t1'',
                 where_nome = Some (Equals ''Bills'' Insensitive), where_OR = None\<rparr>,
      FindFirst \<lparr>where_id = None, where_tenantId = Some ''t1'',
                 where_nome = Some (Equals ''Bills'' Default), where_OR = None\<rparr>]"
    by code_simp
  from blank_name_rejected[of ?b mem 0 "Some ''t1''" twoTenants scriptLost]
       blank_name_rejected[of "'' Bills  ''" mem 0 "Some ''t1''" twoTenants]
       h1 h2 h3 h4 h5 h6
  show ?thesis by simp
qed

text \<open>
  C4. In \<^verbatim>\<open>findOrCreateCategoryByName\<close>, whatever the client, when the first lookup finds
  nothing and the insert is rejected with an error whose code is not \<^verbatim>\<open>P2002\<close>, the
  function rejects with that very error in the state the insert left: nothing runs after
  the insert. On the scripted client the calls recorded are the lookup and the insert and
  no answer after the insert's is consumed.
\<close>

theorem other_insert_failure_propagates:
  assumes "trim n \<noteq> []" and "code e \<noteq> Some ''P2002''"
  shows "(findFirst db (findOrCreate_where (trim n) t) s = (Inr None, s1) \<and>
          create db (trim n) (randomColor u) None t s1 = (Inl e, s2) \<longrightarrow>
            findOrCreateCategoryByName db u n t s = (Inl e, s2)) \<and>
         findOrCreateCategoryByName mock u n t
            \<lparr>script = Found (Inr None) # Written (Inl e) # rest, calls = []\<rparr> =
           (Inl e, \<lparr>script = rest,
                    calls = [FindFirst (findOrCreate_where (trim n) t),
                             Create (trim n) (randomColor u) None t]\<rparr>)"
  using assms by (simp add: findOrCreate_unfold answer_def)

text \<open>The theorem on the script \<open>scriptDown\<close>, whose insert cannot reach the database.\<close>

theorem other_insert_failure_propagates_witness:
  "trim ''Work'' \<noteq> [] \<and> code P1001 \<noteq> Some ''P2002'' \<and>
   findOrCreateCategoryByName mock (1/2) ''Work'' (Some ''t1'') scriptDown =
     (Inl P1001,
      \<lparr>script = [Found (Inr (Some rowWork))],
       calls = [FindFirst (findOrCreate_where (trim ''Work'') (Some ''t1'')),
                Create (trim ''Work'') (randomColor (1/2)) None (Some ''t1'')]\<rparr>)"
proof -
  let ?w = "findOrCreate_where (trim ''Work'') (Some ''t1'')"
  let ?c = "Create (trim ''Work'') (randomColor (1/2)) None (Some ''t1'')"
  let ?m1 = "\<lparr>script = [Written (Inl P1001), Found (Inr (Some rowWork))], calls = [FindFirst ?w]\<rparr>"
  let ?m2 = "\<lparr>script = [Found (Inr (Some rowWork))], calls = [FindFirst ?w, ?c]\<rparr>"
  have n: "trim ''Work'' \<noteq> []" by code_simp
  have p: "code P1001 \<noteq> Some ''P2002''" by code_simp
  have a1: "findFirst mock ?w scriptDown = (Inr None, ?m1)" by code_simp
  have a2: "create mock (trim ''Work'') (randomColor (1/2)) None (Some ''t1'') ?m1 = (Inl P1001, ?m2)"
    by code_simp
  from other_insert_failure_propagates[OF n p, where db = mock and s = scriptDown and ?s1.0 = ?m1
      and ?s2.0 = ?m2 and t = "Some ''t1''" and u = "1/2"] a1 a2
  have "findOrCreateCategoryByName mock (1/2) ''Work'' (Some ''t1'') scriptDown = (Inl P1001, ?m2)"
    by blast
  with n p show ?thesis by simp
qed

text \<open>
  C5. A row created under a tenant \<open>A\<close> (or under no tenant), by \<^verbatim>\<open>createCategory\<close> or by
  an insert of \<^verbatim>\<open>findOrCreateCategoryByName\<close>, carries \<open>A\<close>, and for every concrete tenant id
  \<open>B\<close> other than \<open>A\<close>, on every table of the reference store and for every id, search,
  page and name asked for: \<^verbatim>\<open>getCategoryById\<close> scoped to \<open>B\<close> does not return the row, no
  page of \<^verbatim>\<open>getCategories\<close> scoped to \<open>B\<close> holds it, the lookup of
  \<^verbatim>\<open>findOrCreateCategoryByName\<close> scoped to \<open>B\<close> does not find it, and the id that function
  returns is the id of a row of \<open>B\<close>.
\<close>

theorem tenant_isolation:
  assumes created:
      "createCategory mem data A s0 = (Inr r, s1) \<or>
       (findOrCreateCategoryByName mem u0 n0 A s0 = (Inr (id_cat r), s1) \<and> rows s1 = rows s0 @ [r])"
    and other: "A \<noteq> Some B"
  shows "tenantId r = A \<and>
         fst (getCategoryById mem i (Some B) s) \<noteq> Inr r \<and>
         (\<forall>resp s'. getCategories mem search p ps (Some B) s = (Inr resp, s') \<longrightarrow>
              r \<notin> set (categories resp)) \<and>
         fst (findFirst mem (findOrCreate_where (trim n) (Some B)) s) \<noteq> Inr (Some r) \<and>
         (\<forall>j s'. findOrCreateCategoryByName mem u n (Some B) s = (Inr j, s') \<longrightarrow>
              (\<exists>c\<in>set (rows s'). id_cat c = j \<and> tenantId c = Some B))"
proof -
  from created have A: "tenantId r = A"
  proof
    assume "createCategory mem data A s0 = (Inr r, s1)"
    then show ?thesis by (auto simp: createCategory_mem Let_def split: if_splits)
  next
    assume "findOrCreateCategoryByName mem u0 n0 A s0 = (Inr (id_cat r), s1) \<and> rows s1 = rows s0 @ [r]"
    then show ?thesis using findOrCreate_mem_inserted by blast
  qed
  with other have nv: "\<not> visible (Some B) r" by (simp add: visible_def)
  have 1: "fst (getCategoryById mem i (Some B) s) \<noteq> Inr r"
  proof
    assume "fst (getCategoryById mem i (Some B) s) = Inr r"
    then have "getCategoryById mem i (Some B) s = (Inr r, snd (getCategoryById mem i (Some B) s))"
      by (metis prod.collapse)
    from getCategoryById_mem_visible[OF this] nv show False by simp
  qed
  have 2: "\<forall>resp s'. getCategories mem search p ps (Some B) s = (Inr resp, s') \<longrightarrow>
              r \<notin> set (categories resp)"
    using getCategories_mem_visible nv by blast
  have 3: "fst (findFirst mem (findOrCreate_where (trim n) (Some B)) s) \<noteq> Inr (Some r)"
    using nv by (auto simp: mem_findFirst_def matches_findOrCreate_where dest: find_SomeD)
  have 4: "\<forall>j s'. findOrCreateCategoryByName mem u n (Some B) s = (Inr j, s') \<longrightarrow>
              (\<exists>c\<in>set (rows s'). id_cat c = j \<and> tenantId c = Some B)"
    using findOrCreate_mem_owner[of u n "Some B" s] by auto
  from A 1 2 3 4 show ?thesis by blast
qed

text \<open>
  The theorem at the example of the specification: the row Bills of the tenant \<^verbatim>\<open>t1\<close>,
  asked for by its id and by its name in the scope \<^verbatim>\<open>t2\<close>.
\<close>

theorem tenant_isolation_witness:
  "createCategory mem bills (Some ''t1'') emptyStore = (Inr billsRow, billsStore) \<and>
   Some ''t1'' \<noteq> Some ''t2'' \<and>
   tenantId billsRow = Some ''t1'' \<and>
   fst (getCategoryById mem (id_cat billsRow) (Some ''t2'') billsStore) \<noteq> Inr billsRow \<and>
   getCategoryById mem (id_cat billsRow) (Some ''t2'') billsStore = (Inl notFound, billsStore) \<and>
   getCategoryById mem (id_cat billsRow) (Some ''t1'') billsStore = (Inr billsRow, billsStore) \<and>
   categories (projr (fst (getCategories mem (Some ''bill'') 1 10 (Some ''t2'') billsStore))) = [] \<and>
   categories (projr (fst (getCategories mem (Some ''bill'') 1 10 (Some ''t1'') billsStore))) = [billsRow] \<and>
   fst (findFirst mem (findOrCreate_where (trim ''bills'') (Some ''t2'')) billsStore) \<noteq> Inr (Some billsRow) \<and>
   fst (findOrCreateCategoryByName mem 0 ''bills'' (Some ''t2'') billsStore) = Inr ''c0''"
proof -
  have h1: "createCategory mem bills (Some ''t1'') emptyStore = (Inr billsRow, billsStore)"
    by code_simp
  have h2: "Some ''t1'' \<noteq> Some ''t2''" by simp
  have e1: "getCategoryById mem (id_cat billsRow) (Some ''t2'') billsStore = (Inl notFound, billsStore)"
    by code_simp
  have e2: "getCategoryById mem (id_cat billsRow) (Some ''t1'') billsStore = (Inr billsRow, billsStore)"
    by code_simp
  have e3: "categories (projr (fst (getCategories mem (Some ''bill'') 1 10 (Some ''t2'') billsStore))) = []"
    by code_simp
  have e4: "categories (projr (fst (getCategories mem (Some ''bill'') 1 10 (Some ''t1'') billsStore))) = [billsRow]"
    by code_simp
  have e5: "fst (findOrCreateCategoryByName mem 0 ''bills'' (Some ''t2'') billsStore) = Inr ''c0''"
    by code_simp
  from tenant_isolation[OF disjI1[OF h1] h2, where i = "id_cat billsRow" and s = billsStore
      and search = "Some ''bill''" and p = 1 and ps = 10 and n = "''bills''" and u = 0]
    h1 h2 e1 e2 e3 e4 e5
  show ?thesis by simp
qed

text \<open>
  C6. For a page and a page size of at least 1, \<^verbatim>\<open>getCategories\<close> on the reference store
  returns, of the rows visible in the scope that the search selects (for a search without
  pattern characters: whose \<^verbatim>\<open>nome\<close> or \<^verbatim>\<open>descricao\<close> contains it case-insensitively,
  \<open>searchMatches_contained\<close>), ordered by \<^verbatim>\<open>criadoEm\<close> descending (the ordered list is sorted
  so and has the same rows as often), those left after skipping \<open>(page - 1) * pageSize\<close>
  rows, at most \<open>pageSize\<close> of them; \<^verbatim>\<open>total\<close> is the number of all those rows and
  \<^verbatim>\<open>totalPages\<close> the ceiling of \<open>total / pageSize\<close>; a page beyond the last is empty. With 25
  such rows and a page size of 10, \<^verbatim>\<open>totalPages\<close> is 3, page 3 has 5 rows, and every later
  page is empty with \<^verbatim>\<open>total\<close> still 25.
\<close>

theorem getCategories_page:
  fixes search :: "string option" and t :: "string option" and s :: Store
    and ordered :: "Category list"
  defines "ordered \<equiv> orderByCriadoEm desc (matchingRows search t (rows s))"
  assumes p: "1 \<le> p" and ps: "1 \<le> ps"
  shows "\<exists>resp. getCategories mem search p ps t s = (Inr resp, s) \<and>
           categories resp = take (nat ps) (drop (nat ((p - 1) * ps)) ordered) \<and>
           total_n resp = length (matchingRows search t (rows s)) \<and>
           page resp = p \<and> pageSize resp = ps \<and>
           totalPages resp = Finite \<lceil>(of_nat (total_n resp) :: rat) / of_int ps\<rceil> \<and>
           sorted_wrt (\<lambda>a b. criadoEm b \<le> criadoEm a) ordered \<and>
           (\<forall>x. count_list ordered x = count_list (matchingRows search t (rows s)) x) \<and>
           (int (total_n resp) \<le> (p - 1) * ps \<longrightarrow> categories resp = []) \<and>
           (total_n resp = 25 \<and> ps = 10 \<longrightarrow>
              totalPages resp = Finite 3 \<and>
              (p = 3 \<longrightarrow> length (categories resp) = 5) \<and>
              (3 < p \<longrightarrow> categories resp = [] \<and> total_n resp = 25))"
proof -
  let ?n = "length (matchingRows search t (rows s))"
  let ?resp = "\<lparr>categories = take (nat ps) (drop (nat ((p - 1) * ps)) ordered), total_n = ?n,
                page = p, pageSize = ps, totalPages = Math_ceil_div ?n ps\<rparr>"
  have run: "getCategories mem search p ps t s = (Inr ?resp, s)"
    by (simp add: getCategories_mem paginate_page[OF p ps] ordered_def)
  have tp: "Math_ceil_div ?n ps = Finite \<lceil>(of_nat ?n :: rat) / of_int ps\<rceil>"
    using ps by (simp add: Math_ceil_div_def)
  have srt: "sorted_wrt (\<lambda>a b. criadoEm b \<le> criadoEm a) ordered"
    unfolding ordered_def by (rule sorted_orderByCriadoEm_desc)
  have cnt: "\<forall>x. count_list ordered x = count_list (matchingRows search t (rows s)) x"
    unfolding ordered_def by (simp only: count_list_orderByCriadoEm) simp
  have len: "length ordered = ?n" by (simp add: ordered_def)
  have ex: "totalPages ?resp = Finite 3 \<and>
            (p = 3 \<longrightarrow> length (categories ?resp) = 5) \<and>
            (3 < p \<longrightarrow> categories ?resp = [] \<and> total_n ?resp = 25)"
    if "?n = 25" and "ps = 10"
  proof -
    have "\<lceil>(of_nat 25 :: rat) / of_int 10\<rceil> = 3"
      using ceiling_divide_eq_div[where 'a = rat, of 25 10] by simp
    then have a: "totalPages ?resp = Finite 3" using that by (simp add: Math_ceil_div_def)
    have b: "length (categories ?resp) = 5" if "p = 3"
      using that \<open>?n = 25\<close> \<open>ps = 10\<close> len by simp
    have c: "categories ?resp = []" if "3 < p"
    proof -
      from that have "30 \<le> (p - 1) * 10" by simp
      then have "length ordered \<le> nat ((p - 1) * ps)" using len \<open>?n = 25\<close> \<open>ps = 10\<close> by simp
      then show ?thesis by simp
    qed
    from a b c that show ?thesis by simp
  qed
  have beyond: "categories ?resp = []" if "int ?n \<le> (p - 1) * ps"
  proof -
    from that have "length ordered \<le> nat ((p - 1) * ps)" using len by linarith
    then show ?thesis by simp
  qed
  show ?thesis
    by (rule exI[of _ ?resp]) (use run tp srt cnt ex beyond in simp)
qed

text \<open>
  The theorem on a table with 25 rows of the tenant \<^verbatim>\<open>t1\<close> and one of another tenant:
  pages 1, 3 and 4 of size 10.
\<close>

theorem getCategories_page_witness:
  "(1::int) \<le> 3 \<and> (1::int) \<le> 10 \<and>
   length (matchingRows None (Some ''t1'') (rows store25)) = 25 \<and>
   total_n (projr (fst (getCategories mem None 3 10 (Some ''t1'') store25))) = 25 \<and>
   totalPages (projr (fst (getCategories mem None 3 10 (Some ''t1'') store25))) = Finite 3 \<and>
   length (categories (projr (fst (getCategories mem None 3 10 (Some ''t1'') store25)))) = 5 \<and>
   map criadoEm (categories (projr (fst (getCategories mem None 3 10 (Some ''t1'') store25)))) =
     [4, 3, 2, 1, 0] \<and>
   map criadoEm (categories (projr (fst (getCategories mem None 1 10 (Some ''t1'') store25)))) =
     [24, 23, 22, 21, 20, 19, 18, 17, 16, 15] \<and>
   categories (projr (fst (getCategories mem None 4 10 (Some ''t1'') store25))) = [] \<and>
   total_n (projr (fst (getCategories mem None 4 10 (Some ''t1'') store25))) = 25"
proof -
  have h1: "(1::int) \<le> 3" and h2: "(1::int) \<le> 10" by simp_all
  have n: "length (matchingRows None (Some ''t1'') (rows store25)) = 25" by code_simp
  from getCategories_page[OF h1 h2, of None "Some ''t1''" store25] n
  obtain resp where r: "getCategories mem None 3 10 (Some ''t1'') store25 = (Inr resp, store25)"
    and t: "total_n resp = 25" "totalPages resp = Finite 3" "length (categories resp) = 5"
    by auto
  have e1: "map criadoEm (categories (projr (fst (getCategories mem None 3 10 (Some ''t1'') store25)))) =
     [4, 3, 2, 1, 0]" by code_simp
  have e2: "map criadoEm (categories (projr (fst (getCategories mem None 1 10 (Some ''t1'') store25)))) =
     [24, 23, 22, 21, 20, 19, 18, 17, 16, 15]" by code_simp
  have e3: "categories (projr (fst (getCategories mem None 4 10 (Some ''t1'') store25))) = []"
    by code_simp
  have e4: "total_n (projr (fst (getCategories mem None 4 10 (Some ''t1'') store25))) = 25"
    by code_simp
  from r t n e1 e2 e3 e4 show ?thesis by simp
qed

text \<open>
  C7. When no row of the table has the id and is visible in the caller's scope (the id
  is absent, or its row belongs to another tenant), \<^verbatim>\<open>updateCategory\<close> and
  \<^verbatim>\<open>deleteCategory\<close> on the reference store reject with \<open>notFound\<close>, the error of the message
  \<^verbatim>\<open>Categoria n\<close>U+00E3\<^verbatim>\<open>o encontrada\<close>, and leave the store as it was; on the scripted client
  whose lookup finds nothing, the lookup is the only call they make.
\<close>

theorem update_delete_not_found:
  assumes "\<not> list_ex (\<lambda>r. visible t r \<and> id_cat r = i) (rows s)"
  shows "updateCategory mem i data t s = (Inl notFound, s) \<and>
         deleteCategory mem i t s = (Inl notFound, s) \<and>
         updateCategory mock i data t \<lparr>script = Found (Inr None) # rest, calls = []\<rparr> =
           (Inl notFound,
            \<lparr>script = rest, calls = [FindFirst (applyTenantFilter t (emptyWhere\<lparr>where_id := Some i\<rparr>))]\<rparr>) \<and>
         deleteCategory mock i t \<lparr>script = Found (Inr None) # rest, calls = []\<rparr> =
           (Inl notFound,
            \<lparr>script = rest, calls = [FindFirst (applyTenantFilter t (emptyWhere\<lparr>where_id := Some i\<rparr>))]\<rparr>)"
proof -
  from assms have "find (\<lambda>r. visible t r \<and> id_cat r = i) (rows s) = None"
    by (simp add: find_None_list_ex)
  then have "updateCategory mem i data t s = (Inl notFound, s)"
    and "deleteCategory mem i t s = (Inl notFound, s)"
    by (simp_all add: updateCategory_mem deleteCategory_mem)
  moreover have "updateCategory mock i data t \<lparr>script = Found (Inr None) # rest, calls = []\<rparr> =
           (Inl notFound,
            \<lparr>script = rest, calls = [FindFirst (applyTenantFilter t (emptyWhere\<lparr>where_id := Some i\<rparr>))]\<rparr>)"
    by (simp add: updateCategory_def Let_def await_def answer_def throw_def)
  moreover have "deleteCategory mock i t \<lparr>script = Found (Inr None) # rest, calls = []\<rparr> =
           (Inl notFound,
            \<lparr>script = rest, calls = [FindFirst (applyTenantFilter t (emptyWhere\<lparr>where_id := Some i\<rparr>))]\<rparr>)"
    by (simp add: deleteCategory_def Let_def await_def answer_def throw_def)
  ultimately show ?thesis by simp
qed

text \<open>
  The theorem on \<open>twoTenants\<close>: the id of the row of tenant \<^verbatim>\<open>A\<close> asked for in the scope
  \<^verbatim>\<open>B\<close>, where the row exists and is out of scope, and an id no row has, unscoped.
\<close>

theorem update_delete_not_found_witness:
  "\<not> list_ex (\<lambda>r. visible (Some ''B'') r \<and> id_cat r = ''a1'') (rows twoTenants) \<and>
   \<not> list_ex (\<lambda>r. visible None r \<and> id_cat r = ''zz'') (rows twoTenants) \<and>
   list_ex (\<lambda>r. id_cat r = ''a1'') (rows twoTenants) \<and>
   updateCategory mem ''a1'' bills (Some ''B'') twoTenants = (Inl notFound, twoTenants) \<and>
   deleteCategory mem ''a1'' (Some ''B'') twoTenants = (Inl notFound, twoTenants) \<and>
   updateCategory mem ''zz'' bills None twoTenants = (Inl notFound, twoTenants) \<and>
   deleteCategory mem ''zz'' None twoTenants = (Inl notFound, twoTenants)"
proof -
  have h1: "\<not> list_ex (\<lambda>r. visible (Some ''B'') r \<and> id_cat r = ''a1'') (rows twoTenants)"
    by code_simp
  have h2: "\<not> list_ex (\<lambda>r. visible None r \<and> id_cat r = ''zz'') (rows twoTenants)"
    by code_simp
  have h3: "list_ex (\<lambda>r. id_cat r = ''a1'') (rows twoTenants)"
    by code_simp
  from update_delete_not_found[OF h1, of bills] update_delete_not_found[OF h2, of bills] h1 h2 h3
  show ?thesis by simp
qed

text \<open>
  C8. When \<^verbatim>\<open>updateCategory\<close> returns on the reference store, the table is the old one with
  \<^verbatim>\<open>nome\<close>, \<^verbatim>\<open>cor\<close> and \<^verbatim>\<open>descricao\<close> of the rows with the id replaced by those of the input
  (\<^verbatim>\<open>descricao\<close> by null when the input has none) and nothing else changed: the columns
  \<^verbatim>\<open>id\<close>, \<^verbatim>\<open>tenantId\<close> and \<^verbatim>\<open>criadoEm\<close> of the table are the same lists as before, for every
  input and scope; the row returned is such an updated row, and a row with the id was
  visible in the scope.
\<close>

theorem update_frame:
  assumes "updateCategory mem i data t s = (Inr c, s')"
  shows "rows s' = map (\<lambda>r. if id_cat r = i
                             then r\<lparr>nome := nome_in data, cor := cor_in data,
                                     descricao := orNull (descricao_in data)\<rparr>
                             else r) (rows s) \<and>
         map id_cat (rows s') = map id_cat (rows s) \<and>
         map tenantId (rows s') = map tenantId (rows s) \<and>
         map criadoEm (rows s') = map criadoEm (rows s) \<and>
         nextId s' = nextId s \<and> clock s' = clock s \<and>
         (\<exists>r\<in>set (rows s). id_cat r = i \<and> visible t r) \<and>
         (\<exists>r\<in>set (rows s). id_cat r = i \<and>
            c = r\<lparr>nome := nome_in data, cor := cor_in data, descricao := orNull (descricao_in data)\<rparr>) \<and>
         (descricao_in data = None \<longrightarrow> descricao c = None)"
  using assms by (rule updateCategory_mem_frame)

text \<open>The theorem at an update of the row of tenant \<^verbatim>\<open>B\<close> in \<open>twoTenants\<close>.\<close>

theorem update_frame_witness:
  "updateCategory mem ''b1'' renamed (Some ''B'') twoTenants =
     (Inr (rowB\<lparr>nome := ''Home'', cor := ''#84CC16'', descricao := None\<rparr>),
      twoTenants\<lparr>rows := [rowA, rowB\<lparr>nome := ''Home'', cor := ''#84CC16'', descricao := None\<rparr>]\<rparr>) \<and>
   map id_cat (rows (snd (updateCategory mem ''b1'' renamed (Some ''B'') twoTenants))) = [''a1'', ''b1''] \<and>
   map tenantId (rows (snd (updateCategory mem ''b1'' renamed (Some ''B'') twoTenants))) =
     [Some ''A'', Some ''B''] \<and>
   map criadoEm (rows (snd (updateCategory mem ''b1'' renamed (Some ''B'') twoTenants))) = [1, 2]"
proof -
  let ?c = "rowB\<lparr>nome := ''Home'', cor := ''#84CC16'', descricao := None\<rparr>"
  let ?s = "twoTenants\<lparr>rows := [rowA, ?c]\<rparr>"
  have h: "updateCategory mem ''b1'' renamed (Some ''B'') twoTenants = (Inr ?c, ?s)"
    by code_simp
  have e1: "map id_cat (rows twoTenants) = [''a1'', ''b1'']" by code_simp
  have e2: "map tenantId (rows twoTenants) = [Some ''A'', Some ''B'']" by code_simp
  have e3: "map criadoEm (rows twoTenants) = [1, 2]" by code_simp
  have m: "map id_cat (rows ?s) = [''a1'', ''b1''] \<and>
           map tenantId (rows ?s) = [Some ''A'', Some ''B''] \<and>
           map criadoEm (rows ?s) = [1, 2]"
    using update_frame[OF h] unfolding e1 e2 e3 by blast
  show ?thesis by (simp only: h snd_conv m simp_thms)
qed

text \<open>
  C9. A row that \<^verbatim>\<open>createCategory\<close> or \<^verbatim>\<open>updateCategory\<close> writes in the reference store never
  has the empty string as \<^verbatim>\<open>descricao\<close>: it is null when the input has no \<^verbatim>\<open>descricao\<close> or the
  empty one, and the input's otherwise. Whatever the store answers, the \<^verbatim>\<open>descricao\<close> of
  the insert or update the scripted client records is not the empty string.
\<close>

theorem descricao_never_empty:
  "(createCategory mem data t s = (Inr c, s') \<longrightarrow>
      rows s' = rows s @ [c] \<and> descricao c \<noteq> Some [] \<and>
      (descricao_in data = None \<or> descricao_in data = Some [] \<longrightarrow> descricao c = None) \<and>
      (\<forall>v. descricao_in data = Some v \<and> v \<noteq> [] \<longrightarrow> descricao c = Some v)) \<and>
   (updateCategory mem i data t s = (Inr c, s') \<longrightarrow>
      descricao c \<noteq> Some [] \<and>
      (descricao_in data = None \<or> descricao_in data = Some [] \<longrightarrow> descricao c = None) \<and>
      (\<forall>v. descricao_in data = Some v \<and> v \<noteq> [] \<longrightarrow> descricao c = Some v) \<and>
      (\<forall>r\<in>set (rows s'). id_cat r = i \<longrightarrow> descricao r = descricao c)) \<and>
   (\<forall>d. Create (nome_in data) (cor_in data) d t \<in> set (calls (snd (createCategory mock data t m))) \<and>
        Create (nome_in data) (cor_in data) d t \<notin> set (calls m) \<longrightarrow> d \<noteq> Some []) \<and>
   (\<forall>d. Update i (nome_in data) (cor_in data) d \<in> set (calls (snd (updateCategory mock i data t m))) \<and>
        Update i (nome_in data) (cor_in data) d \<notin> set (calls m) \<longrightarrow> d \<noteq> Some [])"
proof (intro conjI impI allI)
  assume a: "createCategory mem data t s = (Inr c, s')"
  then have c: "descricao c = orNull (descricao_in data)" and r: "rows s' = rows s @ [c]"
    by (auto simp: createCategory_mem Let_def split: if_splits)
  show "rows s' = rows s @ [c]" by (rule r)
  show "descricao c \<noteq> Some []" using orNull_cases[of "descricao_in data"] c by simp
  show "descricao c = None" if "descricao_in data = None \<or> descricao_in data = Some []"
    using orNull_cases[of "descricao_in data"] c that by auto
  show "descricao c = Some v" if "descricao_in data = Some v \<and> v \<noteq> []" for v
    using orNull_cases[of "descricao_in data"] c that by auto
next
  assume a: "updateCategory mem i data t s = (Inr c, s')"
  note fr = updateCategory_mem_frame[OF a]
  from fr obtain r where "r \<in> set (rows s)" "id_cat r = i"
    and ceq: "c = r\<lparr>nome := nome_in data, cor := cor_in data, descricao := orNull (descricao_in data)\<rparr>"
    by blast
  then have c: "descricao c = orNull (descricao_in data)" by simp
  show "descricao c \<noteq> Some []" using orNull_cases[of "descricao_in data"] c by simp
  show "descricao c = None" if "descricao_in data = None \<or> descricao_in data = Some []"
    using orNull_cases[of "descricao_in data"] c that by auto
  show "descricao c = Some v" if "descricao_in data = Some v \<and> v \<noteq> []" for v
    using orNull_cases[of "descricao_in data"] c that by auto
  show "\<forall>r\<in>set (rows s'). id_cat r = i \<longrightarrow> descricao r = descricao c"
    using fr c by auto
next
  fix d
  assume "Create (nome_in data) (cor_in data) d t \<in> set (calls (snd (createCategory mock data t m))) \<and>
        Create (nome_in data) (cor_in data) d t \<notin> set (calls m)"
  then have "d = orNull (descricao_in data)"
    by (auto simp: createCategory_def await_def return_def split: prod.splits sum.splits
        dest!: answer_calls)
  then show "d \<noteq> Some []" using orNull_cases[of "descricao_in data"] by simp
next
  fix d
  assume "Update i (nome_in data) (cor_in data) d \<in> set (calls (snd (updateCategory mock i data t m))) \<and>
        Update i (nome_in data) (cor_in data) d \<notin> set (calls m)"
  then have "d = orNull (descricao_in data)"
    by (auto simp: updateCategory_def Let_def await_def return_def throw_def
        split: prod.splits sum.splits option.splits dest!: answer_calls)
  then show "d \<noteq> Some []" using orNull_cases[of "descricao_in data"] by simp
qed

text \<open>
  The theorem at the input \<open>renamed\<close>, whose \<^verbatim>\<open>descricao\<close> is the empty string, created and
  used in an update; the input \<open>described\<close> keeps its description.
\<close>

theorem descricao_never_empty_witness:
  "descricao_in renamed = Some [] \<and>
   fst (createCategory mem renamed (Some ''B'') twoTenants) =
     Inr \<lparr>id_cat = ''c00'', nome = ''Home'', cor = ''#84CC16'', descricao = None,
          tenantId = Some ''B'', criadoEm = 3\<rparr> \<and>
   descricao (projr (fst (createCategory mem renamed (Some ''B'') twoTenants))) = None \<and>
   descricao (projr (fst (updateCategory mem ''b1'' renamed (Some ''B'') twoTenants))) = None \<and>
   descricao (projr (fst (createCategory mem described (Some ''B'') twoTenants))) = Some ''monthly''"
proof -
  let ?c = "\<lparr>id_cat = ''c00'', nome = ''Home'', cor = ''#84CC16'', descricao = None,
          tenantId = Some ''B'', criadoEm = 3\<rparr>"
  let ?s = "twoTenants\<lparr>rows := rows twoTenants @ [?c], nextId := 3, clock := 4\<rparr>"
  have d: "descricao_in renamed = Some []" by code_simp
  have h1: "createCategory mem renamed (Some ''B'') twoTenants = (Inr ?c, ?s)" by code_simp
  have h2: "updateCategory mem ''b1'' renamed (Some ''B'') twoTenants =
     (Inr (rowB\<lparr>nome := ''Home'', cor := ''#84CC16'', descricao := None\<rparr>),
      twoTenants\<lparr>rows := [rowA, rowB\<lparr>nome := ''Home'', cor := ''#84CC16'', descricao := None\<rparr>]\<rparr>)"
    by code_simp
  have h3: "descricao (projr (fst (createCategory mem described (Some ''B'') twoTenants))) = Some ''monthly''"
    by code_simp
  from descricao_never_empty[where data = renamed and t = "Some ''B''" and s = twoTenants
      and c = ?c and s' = ?s] h1 d
  have a: "descricao ?c = None" by simp
  from descricao_never_empty[where data = renamed and t = "Some ''B''" and s = twoTenants
      and i = "''b1''"] h2 d
  have b: "descricao (rowB\<lparr>nome := ''Home'', cor := ''#84CC16'', descricao := None\<rparr>) = None" by simp
  from a b d h1 h2 h3 show ?thesis by simp
qed

text \<open>
  C10. Whatever the client, \<^verbatim>\<open>getCategories\<close> with the empty string as search is the same
  function of page, page size, scope and state as \<^verbatim>\<open>getCategories\<close> with no search: the
  \<^verbatim>\<open>where\<close> object is the same and has no \<^verbatim>\<open>OR\<close> field, and in the words of the
  specification the same rows match.
\<close>

theorem empty_search_is_no_search:
  "getCategories db (Some []) p ps t = getCategories db None p ps t \<and>
   getCategories_where (Some []) t = getCategories_where None t \<and>
   where_OR (getCategories_where (Some []) t) = None \<and>
   matchingRows (Some []) t rs = matchingRows None t rs"
proof -
  have w: "getCategories_where (Some []) t = getCategories_where None t"
    by (simp add: getCategories_where_def)
  have "getCategories db (Some []) p ps t = getCategories db None p ps t"
    by (rule ext) (simp add: getCategories_def w)
  moreover have "where_OR (getCategories_where (Some []) t) = None"
    by (simp add: getCategories_where_def applyTenantFilter_def emptyWhere_def)
  moreover have "matchingRows (Some []) t rs = matchingRows None t rs"
  proof -
    have "searchMatches (Some []) = searchMatches None"
      by (rule ext) (simp add: searchMatches_empty, simp add: searchMatches_def)
    then show ?thesis by (simp add: matchingRows_def)
  qed
  ultimately show ?thesis using w by simp
qed

text \<open>
  The theorem on \<open>twoTenants\<close>, unscoped: the empty search lists both rows, a search for
  \<^verbatim>\<open>OFF\<close> the one whose description contains it.
\<close>

theorem empty_search_is_no_search_witness:
  "getCategories mem (Some []) 1 10 None twoTenants = getCategories mem None 1 10 None twoTenants \<and>
   map id_cat (categories (projr (fst (getCategories mem (Some []) 1 10 None twoTenants)))) = [''b1'', ''a1''] \<and>
   map id_cat (categories (projr (fst (getCategories mem (Some ''OFF'') 1 10 None twoTenants)))) = [''b1'']"
proof -
  have e1: "map id_cat (categories (projr (fst (getCategories mem None 1 10 None twoTenants)))) = [''b1'', ''a1'']"
    by code_simp
  have e2: "map id_cat (categories (projr (fst (getCategories mem (Some ''OFF'') 1 10 None twoTenants)))) = [''b1'']"
    by code_simp
  from empty_search_is_no_search[of mem 1 10 None] e1 e2 show ?thesis by simp
qed

section \<open>Further properties\<close>

text \<open>
  \<^verbatim>\<open>getAllCategories\<close> on the reference store returns every row visible in the scope, as
  often as the table holds it and no other row, ordered by \<^verbatim>\<open>criadoEm\<close> descending, and
  leaves the store as it was.
\<close>

theorem getAllCategories_lists_scope:
  "getAllCategories mem t s = (Inr (orderByCriadoEm desc (matchingRows None t (rows s))), s) \<and>
   sorted_wrt (\<lambda>a b. criadoEm b \<le> criadoEm a) (orderByCriadoEm desc (matchingRows None t (rows s))) \<and>
   count_list (orderByCriadoEm desc (matchingRows None t (rows s))) x =
     (if visible t x then count_list (rows s) x else 0)"
proof -
  have w: "getCategories_where None t = applyTenantFilter t emptyWhere"
    by (simp add: getCategories_where_def)
  have "filter (matches (applyTenantFilter t emptyWhere)) (rows s) = matchingRows None t (rows s)"
    using filter_matches_getCategories[of None t "rows s"] by (simp add: w)
  then have run: "getAllCategories mem t s = (Inr (orderByCriadoEm desc (matchingRows None t (rows s))), s)"
    by (simp add: getAllCategories_def Let_def mem_findMany_def paginate_def)
  have cnt: "count_list (filter P xs) x = (if P x then count_list xs x else 0)" for P and xs :: "Category list"
    by (induction xs) auto
  have "count_list (matchingRows None t (rows s)) x = (if visible t x then count_list (rows s) x else 0)"
    by (simp add: matchingRows_def searchMatches_def cnt)
  with run sorted_orderByCriadoEm_desc[of "matchingRows None t (rows s)"] show ?thesis
    by (simp only: count_list_orderByCriadoEm simp_thms)
qed

text \<open>The theorem on \<open>twoTenants\<close>, unscoped and in the scope of the tenant \<^verbatim>\<open>A\<close>.\<close>

theorem getAllCategories_lists_scope_witness:
  "getAllCategories mem None twoTenants = (Inr [rowB, rowA], twoTenants) \<and>
   getAllCategories mem (Some ''A'') twoTenants = (Inr [rowA], twoTenants)"
proof -
  have e1: "orderByCriadoEm desc (matchingRows None None (rows twoTenants)) = [rowB, rowA]"
    by code_simp
  have e2: "orderByCriadoEm desc (matchingRows None (Some ''A'') (rows twoTenants)) = [rowA]"
    by code_simp
  from getAllCategories_lists_scope[of None twoTenants] getAllCategories_lists_scope[of "Some ''A''" twoTenants]
    e1 e2
  show ?thesis by simp
qed

text \<open>
  Sequential calls never break the invariant of the data model: on a table of the
  reference store where no two rows of one tenant have the same name case-insensitively,
  \<^verbatim>\<open>findOrCreateCategoryByName\<close> leaves such a table, in every scope and whatever it returns.
\<close>

theorem findOrCreate_keeps_names_unique:
  assumes "uniquePerTenant (rows s)"
    and "findOrCreateCategoryByName mem u n t s = (r, s')"
  shows "uniquePerTenant (rows s')"
  using findOrCreate_mem_state[OF assms(2)]
proof
  assume "s' = s"
  with assms(1) show ?thesis by simp
next
  assume new: "\<not> uniqueViolation (trim n) t (rows s) \<and> r = Inr (newId (nextId s)) \<and>
          s' = s\<lparr>rows := rows s @ [createdRow u n t s], nextId := nextId s + 1,
                 clock := clock s + 1\<rparr>"
  then have fresh:
    "(t, toLowerCase (trim n)) \<notin> (\<lambda>r. (tenantId r, toLowerCase (nome r))) ` set (rows s)"
    by (auto simp: uniqueViolation_def list_ex_iff)
  from new have "rows s' = rows s @ [createdRow u n t s]" by simp
  with assms(1) fresh show ?thesis
    by (simp add: uniquePerTenant_def createdRow_def)
qed

theorem findOrCreate_keeps_names_unique_witness:
  "uniquePerTenant (rows twoTenants) \<and>
   uniquePerTenant (rows (snd (findOrCreateCategoryByName mem 0 ''WORK'' (Some ''t1'') twoTenants))) \<and>
   length (rows (snd (findOrCreateCategoryByName mem 0 ''WORK'' (Some ''t1'') twoTenants))) = 3"
proof -
  have h: "uniquePerTenant (rows twoTenants)" by code_simp
  have e: "length (rows (snd (findOrCreateCategoryByName mem 0 ''WORK'' (Some ''t1'') twoTenants))) = 3"
    by code_simp
  from findOrCreate_keeps_names_unique[OF h, of 0 "''WORK''" "Some ''t1''"
      "fst (findOrCreateCategoryByName mem 0 ''WORK'' (Some ''t1'') twoTenants)"
      "snd (findOrCreateCategoryByName mem 0 ''WORK'' (Some ''t1'') twoTenants)"] h e
  show ?thesis by simp
qed

end
